theory Spec2Isabelle
  imports Main "HOL-Library.Sublist"
begin

chapter \<open>traefik-fed: federation of Traefik router tables\<close>

text \<open>
  A shallow embedding of the aggregation pipeline of traefik-fed: the Traefik API client
  (\<^verbatim>\<open>package traefik\<close>: \<^verbatim>\<open>GetRouters\<close>, \<^verbatim>\<open>FilterRouters\<close>), the
  configuration types (\<^verbatim>\<open>package config\<close>), the aggregator
  (\<^verbatim>\<open>package aggregator\<close>: \<^verbatim>\<open>New\<close>, \<^verbatim>\<open>Aggregate\<close>,
  \<^verbatim>\<open>aggregateUpstream\<close>) and the publication step of the polling loop
  (\<^verbatim>\<open>runAggregation\<close> in \<^verbatim>\<open>cmd/traefik-fed/main.go\<close>).

  Conventions of the embedding.
  \<^item> A Go \<^verbatim>\<open>string\<close> is a \<^typ>\<open>string\<close> (a list of 8-bit characters, as Go strings are byte
    sequences).
  \<^item> A slice is a list; a \<^verbatim>\<open>nil\<close> slice and an empty slice are both \<open>[]\<close> (the code only
    takes \<^verbatim>\<open>len\<close> of them and ranges over them).
  \<^item> A pointer that may be \<^verbatim>\<open>nil\<close> is an \<^typ>\<open>'a option\<close>. The slice of
    \<^verbatim>\<open>*RouterInfo\<close> that \<^verbatim>\<open>json.Unmarshal\<close> decodes is a list of optional records:
    a JSON \<^verbatim>\<open>null\<close> in the array decodes to a \<^verbatim>\<open>nil\<close> pointer, without error.
  \<^item> A Go map is a partial function \<open>string \<rightharpoonup> 'v\<close>.
  \<^item> \<^verbatim>\<open>dynamic.RouterTLSConfig\<close> is a type of the Traefik library; the code only copies
    pointers to it, so it is the type parameter \<open>'tls\<close>.
  \<^item> A function that mutates \<^verbatim>\<open>httpConfig\<close> in place returns the updated value.
  \<^item> A \<^verbatim>\<open>nil\<close>-pointer panic is the result \<^term>\<open>None\<close>.
  \<^item> Calls to the logger are left out: no modelled function reads the log.
\<close>

section \<open>Package traefik: the API client\<close>

text \<open>\<^verbatim>\<open>type Client struct { httpClient *http.Client; baseURL string }\<close>; the HTTP client
  itself (a fixed 10 s timeout) is part of the environment \<open>world\<close> below.\<close>

record Client =
  baseURL :: string

definition NewClient :: "string \<Rightarrow> Client" where
  "NewClient url = \<lparr>baseURL = url\<rparr>"

record Observability =
  AccessLogs :: bool
  Metrics :: bool
  Tracing :: bool
  TraceVerbosity :: string

record 'tls RouterInfo =
  EntryPoints :: "string list"
  Middlewares :: "string list"
  Service :: string
  Rule :: string
  RuleSyntax :: string
  Priority :: int
  Observability :: "Observability option"
  Status :: string
  Using :: "string list"
  Name :: string
  Provider :: string
  TLS :: "'tls option"

text \<open>Errors. \<open>Extern\<close> is an error value handed back by \<^verbatim>\<open>net/http\<close>, \<^verbatim>\<open>io\<close> or
  \<^verbatim>\<open>encoding/json\<close>; the other constructors are the \<^verbatim>\<open>fmt.Errorf\<close> wrappers of the
  source, in the order they appear.\<close>

datatype error =
    Extern string
  | FetchFailed error
  | APIStatus int string
  | ReadFailed error
  | ParseFailed error
  | AggregateFetchFailed error

text \<open>What \<^verbatim>\<open>httpClient.Get\<close> returns when the transport succeeds: the status code and
  what \<^verbatim>\<open>io.ReadAll(resp.Body)\<close> yields (the bytes read, and an error or \<^verbatim>\<open>nil\<close>).\<close>

record http_response =
  StatusCode :: int
  BodyBytes :: string
  BodyErr :: "string option"

text \<open>The environment of one poll cycle: the answer of the network to a GET on a URL
  (\<open>Inl\<close> a transport error) and the JSON decoder for \<^verbatim>\<open>[]*RouterInfo\<close>.\<close>

record 'tls world =
  httpGet :: "string \<Rightarrow> string + http_response"
  jsonUnmarshal :: "string \<Rightarrow> string + 'tls RouterInfo option list"

definition GetRouters :: "'tls world \<Rightarrow> Client \<Rightarrow> error + 'tls RouterInfo option list" where
  "GetRouters w c =
     (let url = baseURL c @ ''/http/routers'' in
      case httpGet w url of
        Inl err \<Rightarrow> Inl (FetchFailed (Extern err))
      | Inr resp \<Rightarrow>
          if StatusCode resp \<noteq> 200 then Inl (APIStatus (StatusCode resp) (BodyBytes resp))
          else
            (case BodyErr resp of
               Some err \<Rightarrow> Inl (ReadFailed (Extern err))
             | None \<Rightarrow>
                 (case jsonUnmarshal w (BodyBytes resp) of
                    Inl err \<Rightarrow> Inl (ParseFailed (Extern err))
                  | Inr routers \<Rightarrow> Inr routers)))"

text \<open>\<^verbatim>\<open>FilterRouters\<close>: the loop appends to \<^verbatim>\<open>filtered\<close>, which starts empty; each
  \<^verbatim>\<open>continue\<close> goes on with the accumulator unchanged. The first statement of the body
  reads \<^verbatim>\<open>router.Provider\<close>: on a \<^verbatim>\<open>nil\<close> element this is a nil-pointer dereference,
  and the function panics (the result \<^term>\<open>None\<close>). Every pointer appended to
  \<^verbatim>\<open>filtered\<close> has just been dereferenced, so the filtered slice is a list of records.\<close>

fun FilterRouters_loop ::
  "'tls RouterInfo option list \<Rightarrow> string \<Rightarrow> string \<Rightarrow> 'tls RouterInfo list
     \<Rightarrow> 'tls RouterInfo list option" where
  "FilterRouters_loop [] provider status filtered = Some filtered"
| "FilterRouters_loop (None # routers) provider status filtered = None"
| "FilterRouters_loop (Some router # routers) provider status filtered =
     (if Provider router = ''internal'' then FilterRouters_loop routers provider status filtered
      else if provider \<noteq> [] \<and> Provider router \<noteq> provider
        then FilterRouters_loop routers provider status filtered
      else if status \<noteq> [] \<and> Status router \<noteq> status
        then FilterRouters_loop routers provider status filtered
      else FilterRouters_loop routers provider status (filtered @ [router]))"

definition FilterRouters ::
  "'tls RouterInfo option list \<Rightarrow> string \<Rightarrow> string \<Rightarrow> 'tls RouterInfo list option" where
  "FilterRouters routers provider status = FilterRouters_loop routers provider status []"

text \<open>The selection predicate in the words of the specification (section 4.2): a router is
  kept when its provider is not \<^verbatim>\<open>internal\<close>, its provider equals the criterion's provider
  when that is non-empty, and its status equals the criterion's status.\<close>

definition spec_selected :: "string \<Rightarrow> string \<Rightarrow> 'tls RouterInfo \<Rightarrow> bool" where
  "spec_selected provider status r \<longleftrightarrow>
     Provider r \<noteq> ''internal'' \<and> (provider = '''' \<or> Provider r = provider) \<and> Status r = status"

text \<open>The predicate the code applies: the status test, too, is skipped for an empty criterion.\<close>

definition code_selected :: "string \<Rightarrow> string \<Rightarrow> 'tls RouterInfo \<Rightarrow> bool" where
  "code_selected provider status r \<longleftrightarrow>
     Provider r \<noteq> ''internal'' \<and> (provider = '''' \<or> Provider r = provider)
       \<and> (status = '''' \<or> Status r = status)"

section \<open>Package config\<close>

text \<open>The fields of \<^verbatim>\<open>Config\<close> that the aggregator reads; \<^verbatim>\<open>Output\<close> and
  \<^verbatim>\<open>Server\<close> (ports, paths, intervals) are read by \<^verbatim>\<open>main\<close> only and are left out.\<close>

record Upstream =
  Name :: string
  AdminURL :: string
  ServerURL :: string

record RouterSelector =
  Provider :: string
  Status :: string

record 'tls RouterDefaults =
  EntryPoints :: "string list"
  Middlewares :: "string list"
  TLS :: "'tls option"

record 'tls RouterConfig =
  Selector :: RouterSelector
  Defaults :: "'tls RouterDefaults"

record 'tls Config =
  Upstreams :: "Upstream list"
  Routers :: "'tls RouterConfig"

section \<open>The Traefik dynamic configuration\<close>

text \<open>The fields of \<^verbatim>\<open>dynamic.Router\<close>, \<^verbatim>\<open>dynamic.Service\<close> and
  \<^verbatim>\<open>dynamic.HTTPConfiguration\<close> that the aggregator sets; every other field keeps its
  zero value in every published declaration.\<close>

record 'tls Router =
  Rule :: string
  Service :: string
  EntryPoints :: "string list"
  Middlewares :: "string list"
  TLS :: "'tls option"

record Server =
  URL :: string

record ServersLoadBalancer =
  Servers :: "Server list"

record Service =
  LoadBalancer :: "ServersLoadBalancer option"

record 'tls HTTPConfiguration =
  Routers :: "string \<rightharpoonup> 'tls Router"
  Services :: "string \<rightharpoonup> Service"

section \<open>Package aggregator\<close>

record 'tls Aggregator =
  config :: "'tls Config"
  clients :: "string \<rightharpoonup> Client"

text \<open>\<^verbatim>\<open>strings.TrimSuffix\<close>: the string without the suffix when it ends with it, the
  string itself otherwise.\<close>

definition TrimSuffix :: "string \<Rightarrow> string \<Rightarrow> string" where
  "TrimSuffix s suf =
     (if length suf \<le> length s \<and> drop (length s - length suf) s = suf
      then take (length s - length suf) s else s)"

fun New_loop :: "Upstream list \<Rightarrow> (string \<rightharpoonup> Client) \<Rightarrow> (string \<rightharpoonup> Client)" where
  "New_loop [] cs = cs"
| "New_loop (upstream # upstreams) cs =
     (let apiURL = TrimSuffix (AdminURL upstream) ''/'' @ ''/api''
      in New_loop upstreams (cs(Upstream.Name upstream \<mapsto> NewClient apiURL)))"

definition New :: "'tls Config \<Rightarrow> 'tls Aggregator" where
  "New cfg = \<lparr>config = cfg, clients = New_loop (Upstreams cfg) Map.empty\<rparr>"

text \<open>\<^verbatim>\<open>strings.Index(s, "@")\<close> for the one-byte separator: the index of its first
  occurrence, or \<open>-1\<close>.\<close>

fun Index :: "string \<Rightarrow> char \<Rightarrow> int" where
  "Index [] c = -1"
| "Index (x # xs) c = (if x = c then 0 else (let i = Index xs c in if i = -1 then -1 else i + 1))"

text \<open>Lines 90--93 of \<^verbatim>\<open>aggregateUpstream\<close>: the router name without its provider suffix.\<close>

definition baseName :: "string \<Rightarrow> string" where
  "baseName name = (let idx = Index name CHR ''@'' in if idx \<noteq> -1 then take (nat idx) name else name)"

text \<open>\<^verbatim>\<open>fmt.Sprintf("%s-traefik", upstream.Name)\<close> and
  \<^verbatim>\<open>fmt.Sprintf("%s-%s", upstream.Name, baseName)\<close>.\<close>

definition serviceName :: "string \<Rightarrow> string" where
  "serviceName upstreamName = upstreamName @ ''-traefik''"

definition routerName :: "string \<Rightarrow> string \<Rightarrow> string" where
  "routerName upstreamName name = upstreamName @ ''-'' @ baseName name"

definition upstreamService :: "Upstream \<Rightarrow> Service" where
  "upstreamService upstream =
     \<lparr>LoadBalancer = Some \<lparr>Servers = [\<lparr>URL = ServerURL upstream\<rparr>]\<rparr>\<rparr>"

subsection \<open>The aggregator of \<^verbatim>\<open>internal/aggregator/aggregator.go\<close>\<close>

text \<open>This variant copies entry points, middlewares and TLS from the upstream's router and
  never reads \<^verbatim>\<open>config.Routers.Defaults\<close>.\<close>

definition newRouter :: "string \<Rightarrow> 'tls RouterInfo \<Rightarrow> 'tls Router" where
  "newRouter svc router =
     (let r = \<lparr>Rule = RouterInfo.Rule router, Service = svc,
               EntryPoints = RouterInfo.EntryPoints router,
               Middlewares = RouterInfo.Middlewares router, TLS = None\<rparr>
      in if RouterInfo.TLS router \<noteq> None then r\<lparr>TLS := RouterInfo.TLS router\<rparr> else r)"

fun addRouters ::
  "Upstream \<Rightarrow> string \<Rightarrow> 'tls RouterInfo list \<Rightarrow> 'tls HTTPConfiguration \<Rightarrow> 'tls HTTPConfiguration" where
  "addRouters upstream svc [] httpConfig = httpConfig"
| "addRouters upstream svc (router # routers) httpConfig =
     addRouters upstream svc routers
       (httpConfig\<lparr>Routers := (Routers httpConfig)
          (routerName (Upstream.Name upstream) (RouterInfo.Name router) \<mapsto> newRouter svc router)\<rparr>)"

definition aggregateUpstream ::
  "'tls world \<Rightarrow> 'tls Aggregator \<Rightarrow> Upstream \<Rightarrow> 'tls HTTPConfiguration
     \<Rightarrow> (error option \<times> 'tls HTTPConfiguration) option" where
  "aggregateUpstream w a upstream httpConfig =
     (case clients a (Upstream.Name upstream) of
        None \<Rightarrow> None
      | Some client \<Rightarrow>
          (case GetRouters w client of
             Inl err \<Rightarrow> Some (Some (AggregateFetchFailed err), httpConfig)
           | Inr routers \<Rightarrow>
               (case FilterRouters routers
                      (RouterSelector.Provider (Selector (Config.Routers (config a))))
                      (RouterSelector.Status (Selector (Config.Routers (config a)))) of
                  None \<Rightarrow> None
                | Some filteredRouters \<Rightarrow>
                    if length filteredRouters > 0
                    then Some (None,
                      addRouters upstream (serviceName (Upstream.Name upstream)) filteredRouters
                        (httpConfig\<lparr>Services := (Services httpConfig)
                           (serviceName (Upstream.Name upstream) \<mapsto> upstreamService upstream)\<rparr>))
                    else Some (None, httpConfig))))"

text \<open>The loop of \<^verbatim>\<open>Aggregate\<close>: an error of one upstream is logged and the loop goes on
  with the next upstream.\<close>

fun Aggregate_loop ::
  "'tls world \<Rightarrow> 'tls Aggregator \<Rightarrow> Upstream list \<Rightarrow> 'tls HTTPConfiguration
     \<Rightarrow> 'tls HTTPConfiguration option" where
  "Aggregate_loop w a [] httpConfig = Some httpConfig"
| "Aggregate_loop w a (upstream # upstreams) httpConfig =
     (case aggregateUpstream w a upstream httpConfig of
        None \<Rightarrow> None
      | Some (Some err, httpConfig') \<Rightarrow> Aggregate_loop w a upstreams httpConfig'
      | Some (None, httpConfig') \<Rightarrow> Aggregate_loop w a upstreams httpConfig')"

definition emptyConfig :: "'tls HTTPConfiguration" where
  "emptyConfig = \<lparr>Routers = Map.empty, Services = Map.empty\<rparr>"

definition Aggregate ::
  "'tls world \<Rightarrow> 'tls Aggregator \<Rightarrow> ('tls HTTPConfiguration \<times> error option) option" where
  "Aggregate w a =
     (case Aggregate_loop w a (Upstreams (config a)) emptyConfig of
        None \<Rightarrow> None
      | Some httpConfig \<Rightarrow> Some (httpConfig, None))"

subsection \<open>The aggregator with merge defaults\<close>

text \<open>The second \<^verbatim>\<open>package aggregator\<close> source of the repository (it follows
  \<^verbatim>\<open>package config\<close> in \<^verbatim>\<open>internal/config/config.go\<close>). \<^verbatim>\<open>New\<close>, the fetch, the
  selection, the service and the router names are those of the first variant; the published
  router takes entry points and middlewares from \<^verbatim>\<open>config.Routers.Defaults\<close> only, and
  its TLS from the defaults first.\<close>

definition newRouter_defaults :: "'tls RouterDefaults \<Rightarrow> string \<Rightarrow> 'tls RouterInfo \<Rightarrow> 'tls Router" where
  "newRouter_defaults d svc router =
     (let r0 = \<lparr>Rule = RouterInfo.Rule router, Service = svc,
                EntryPoints = [], Middlewares = [], TLS = None\<rparr>;
          r1 = (if length (RouterDefaults.EntryPoints d) > 0
                then r0\<lparr>EntryPoints := RouterDefaults.EntryPoints d\<rparr> else r0);
          r2 = (if length (RouterDefaults.Middlewares d) > 0
                then r1\<lparr>Middlewares := RouterDefaults.Middlewares d\<rparr> else r1)
      in if RouterDefaults.TLS d \<noteq> None then r2\<lparr>TLS := RouterDefaults.TLS d\<rparr>
         else if RouterInfo.TLS router \<noteq> None then r2\<lparr>TLS := RouterInfo.TLS router\<rparr>
         else r2)"

fun addRouters_defaults ::
  "'tls RouterDefaults \<Rightarrow> Upstream \<Rightarrow> string \<Rightarrow> 'tls RouterInfo list \<Rightarrow> 'tls HTTPConfiguration
     \<Rightarrow> 'tls HTTPConfiguration" where
  "addRouters_defaults d upstream svc [] httpConfig = httpConfig"
| "addRouters_defaults d upstream svc (router # routers) httpConfig =
     addRouters_defaults d upstream svc routers
       (httpConfig\<lparr>Routers := (Routers httpConfig)
          (routerName (Upstream.Name upstream) (RouterInfo.Name router)
             \<mapsto> newRouter_defaults d svc router)\<rparr>)"

definition aggregateUpstream_defaults ::
  "'tls world \<Rightarrow> 'tls Aggregator \<Rightarrow> Upstream \<Rightarrow> 'tls HTTPConfiguration
     \<Rightarrow> (error option \<times> 'tls HTTPConfiguration) option" where
  "aggregateUpstream_defaults w a upstream httpConfig =
     (case clients a (Upstream.Name upstream) of
        None \<Rightarrow> None
      | Some client \<Rightarrow>
          (case GetRouters w client of
             Inl err \<Rightarrow> Some (Some (AggregateFetchFailed err), httpConfig)
           | Inr routers \<Rightarrow>
               (case FilterRouters routers
                      (RouterSelector.Provider (Selector (Config.Routers (config a))))
                      (RouterSelector.Status (Selector (Config.Routers (config a)))) of
                  None \<Rightarrow> None
                | Some filteredRouters \<Rightarrow>
                    if length filteredRouters > 0
                    then Some (None,
                      addRouters_defaults (Defaults (Config.Routers (config a))) upstream
                        (serviceName (Upstream.Name upstream)) filteredRouters
                        (httpConfig\<lparr>Services := (Services httpConfig)
                           (serviceName (Upstream.Name upstream) \<mapsto> upstreamService upstream)\<rparr>))
                    else Some (None, httpConfig))))"

fun Aggregate_loop_defaults ::
  "'tls world \<Rightarrow> 'tls Aggregator \<Rightarrow> Upstream list \<Rightarrow> 'tls HTTPConfiguration
     \<Rightarrow> 'tls HTTPConfiguration option" where
  "Aggregate_loop_defaults w a [] httpConfig = Some httpConfig"
| "Aggregate_loop_defaults w a (upstream # upstreams) httpConfig =
     (case aggregateUpstream_defaults w a upstream httpConfig of
        None \<Rightarrow> None
      | Some (Some err, httpConfig') \<Rightarrow> Aggregate_loop_defaults w a upstreams httpConfig'
      | Some (None, httpConfig') \<Rightarrow> Aggregate_loop_defaults w a upstreams httpConfig')"

definition Aggregate_defaults ::
  "'tls world \<Rightarrow> 'tls Aggregator \<Rightarrow> ('tls HTTPConfiguration \<times> error option) option" where
  "Aggregate_defaults w a =
     (case Aggregate_loop_defaults w a (Upstreams (config a)) emptyConfig of
        None \<Rightarrow> None
      | Some httpConfig \<Rightarrow> Some (httpConfig, None))"

section \<open>Publication: \<^verbatim>\<open>runAggregation\<close>\<close>

text \<open>\<^verbatim>\<open>output.HTTPServer\<close>: the cached configuration; \<^verbatim>\<open>UpdateConfig\<close> replaces it
  under the write lock.\<close>

record 'tls HTTPServer =
  cached :: "'tls HTTPConfiguration"

definition UpdateConfig :: "'tls HTTPConfiguration \<Rightarrow> 'tls HTTPServer \<Rightarrow> 'tls HTTPServer" where
  "UpdateConfig c s = s\<lparr>cached := c\<rparr>"

text \<open>A buffered Go channel, as seen by its sender: the capacity given to \<^verbatim>\<open>make\<close> and
  the values sent and not yet received, oldest first.\<close>

record 'a chan =
  capacity :: nat
  pending :: "'a list"

definition make_chan :: "nat \<Rightarrow> 'a chan" where
  "make_chan n = \<lparr>capacity = n, pending = []\<rparr>"

text \<open>\<^verbatim>\<open>select { case ch <- v: default: }\<close>: the send is taken when the buffer has room;
  otherwise the \<^verbatim>\<open>default\<close> branch runs, which does nothing. Either way the statement
  completes at once.\<close>

definition select_send :: "'a \<Rightarrow> 'a chan \<Rightarrow> 'a chan" where
  "select_send v ch =
     (if length (pending ch) < capacity ch then ch\<lparr>pending := pending ch @ [v]\<rparr> else ch)"

text \<open>The receive of the file writer: the oldest pending value leaves the buffer.\<close>

definition receive :: "'a chan \<Rightarrow> ('a \<times> 'a chan) option" where
  "receive ch = (case pending ch of [] \<Rightarrow> None | v # vs \<Rightarrow> Some (v, ch\<lparr>pending := vs\<rparr>))"

text \<open>\<^verbatim>\<open>runAggregation\<close>. The method \<^verbatim>\<open>agg.Aggregate\<close> is the parameter
  \<open>aggregate\<close> (either variant above); \<^verbatim>\<open>httpServer\<close> and \<^verbatim>\<open>fileConfigChan\<close> are
  \<^verbatim>\<open>nil\<close> when the output is disabled. The result is the state of the two sinks after the
  call.\<close>

definition runAggregation ::
  "('tls world \<Rightarrow> 'tls Aggregator \<Rightarrow> ('tls HTTPConfiguration \<times> error option) option)
     \<Rightarrow> 'tls world \<Rightarrow> 'tls Aggregator \<Rightarrow> 'tls HTTPServer option
     \<Rightarrow> 'tls HTTPConfiguration chan option
     \<Rightarrow> ('tls HTTPServer option \<times> 'tls HTTPConfiguration chan option) option" where
  "runAggregation aggregate w agg httpServer fileConfigChan =
     (case aggregate w agg of
        None \<Rightarrow> None
      | Some (httpConfig, Some err) \<Rightarrow> Some (httpServer, fileConfigChan)
      | Some (httpConfig, None) \<Rightarrow>
          Some (case httpServer of None \<Rightarrow> None | Some s \<Rightarrow> Some (UpdateConfig httpConfig s),
                case fileConfigChan of None \<Rightarrow> None | Some ch \<Rightarrow> Some (select_send httpConfig ch)))"

section \<open>Derived notions\<close>

text \<open>The answer of an upstream has a \<^verbatim>\<open>nil\<close> entry: its fetch succeeds and the decoded
  list holds a \<^verbatim>\<open>nil\<close> pointer.\<close>

definition nilEntry :: "'tls world \<Rightarrow> 'tls Aggregator \<Rightarrow> Upstream \<Rightarrow> bool" where
  "nilEntry w a u =
     (case clients a (Upstream.Name u) of
        None \<Rightarrow> False
      | Some c \<Rightarrow> (case GetRouters w c of Inl err \<Rightarrow> False | Inr routers \<Rightarrow> None \<in> set routers))"

text \<open>The routers of an upstream that survive selection in a cycle: the filtered answer of
  the upstream's client, and nothing when the fetch fails, the filter panics or the client
  is missing.\<close>

definition selected :: "'tls world \<Rightarrow> 'tls Aggregator \<Rightarrow> Upstream \<Rightarrow> 'tls RouterInfo list" where
  "selected w a u =
     (case clients a (Upstream.Name u) of
        None \<Rightarrow> []
      | Some c \<Rightarrow>
          (case GetRouters w c of
             Inl err \<Rightarrow> []
           | Inr routers \<Rightarrow>
               (case FilterRouters routers
                  (RouterSelector.Provider (Selector (Config.Routers (config a))))
                  (RouterSelector.Status (Selector (Config.Routers (config a)))) of
                  None \<Rightarrow> []
                | Some filtered \<Rightarrow> filtered)))"

text \<open>The fetch of an upstream fails: \<^verbatim>\<open>GetRouters\<close> returns an error.\<close>

definition fetchFails :: "'tls world \<Rightarrow> 'tls Aggregator \<Rightarrow> Upstream \<Rightarrow> bool" where
  "fetchFails w a u =
     (case clients a (Upstream.Name u) of None \<Rightarrow> False | Some c \<Rightarrow> isl (GetRouters w c))"

text \<open>The entries written to \<^verbatim>\<open>httpConfig.Routers\<close> and \<^verbatim>\<open>httpConfig.Services\<close>
  in a cycle, in the order of the assignments; \<open>mk\<close> builds the published router.\<close>

definition published ::
  "(Upstream \<Rightarrow> 'tls RouterInfo \<Rightarrow> 'tls Router) \<Rightarrow> 'tls world \<Rightarrow> 'tls Aggregator \<Rightarrow> Upstream list
     \<Rightarrow> (string \<times> 'tls Router) list" where
  "published mk w a ups =
     concat (map (\<lambda>u. map (\<lambda>r. (routerName (Upstream.Name u) (RouterInfo.Name r), mk u r))
                          (selected w a u)) ups)"

definition publishedServices ::
  "'tls world \<Rightarrow> 'tls Aggregator \<Rightarrow> Upstream list \<Rightarrow> (string \<times> Service) list" where
  "publishedServices w a ups =
     map (\<lambda>u. (serviceName (Upstream.Name u), upstreamService u))
       (filter (\<lambda>u. selected w a u \<noteq> []) ups)"

text \<open>The router published for a selected router, in either variant.\<close>

definition mkRouter :: "Upstream \<Rightarrow> 'tls RouterInfo \<Rightarrow> 'tls Router" where
  "mkRouter u r = newRouter (serviceName (Upstream.Name u)) r"

definition mkRouter_defaults :: "'tls RouterDefaults \<Rightarrow> Upstream \<Rightarrow> 'tls RouterInfo \<Rightarrow> 'tls Router" where
  "mkRouter_defaults d u r = newRouter_defaults d (serviceName (Upstream.Name u)) r"

text \<open>What one upstream adds to the configuration, and what a list of upstreams adds.\<close>

definition step ::
  "(Upstream \<Rightarrow> 'tls RouterInfo \<Rightarrow> 'tls Router) \<Rightarrow> 'tls world \<Rightarrow> 'tls Aggregator \<Rightarrow> Upstream
     \<Rightarrow> 'tls HTTPConfiguration \<Rightarrow> 'tls HTTPConfiguration" where
  "step mk w a u h =
     \<lparr>Routers = Routers h ++ map_of (rev (published mk w a [u])),
      Services = Services h ++ map_of (rev (publishedServices w a [u]))\<rparr>"

definition outcome ::
  "(Upstream \<Rightarrow> 'tls RouterInfo \<Rightarrow> 'tls Router) \<Rightarrow> 'tls world \<Rightarrow> 'tls Aggregator \<Rightarrow> Upstream list
     \<Rightarrow> 'tls HTTPConfiguration \<Rightarrow> 'tls HTTPConfiguration" where
  "outcome mk w a ups h =
     \<lparr>Routers = Routers h ++ map_of (rev (published mk w a ups)),
      Services = Services h ++ map_of (rev (publishedServices w a ups))\<rparr>"

text \<open>Observations of the result of \<^verbatim>\<open>Aggregate\<close>: the router and the service
  published under a key (nothing when the call panicked).\<close>

definition routerAt ::
  "('tls HTTPConfiguration \<times> error option) option \<Rightarrow> string \<Rightarrow> 'tls Router option" where
  "routerAt res k = (case res of None \<Rightarrow> None | Some (h, e) \<Rightarrow> Routers h k)"

definition serviceAt ::
  "('tls HTTPConfiguration \<times> error option) option \<Rightarrow> string \<Rightarrow> Service option" where
  "serviceAt res k = (case res of None \<Rightarrow> None | Some (h, e) \<Rightarrow> Services h k)"

text \<open>The configuration without the upstreams whose fetch fails.\<close>

definition withoutFailed :: "'tls world \<Rightarrow> 'tls Config \<Rightarrow> 'tls Config" where
  "withoutFailed w cfg =
     cfg\<lparr>Upstreams := filter (\<lambda>u. \<not> fetchFails w (New cfg) u) (Upstreams cfg)\<rparr>"

section \<open>Example inputs\<close>

text \<open>The TLS reference is instantiated by the name of its certificate resolver.\<close>

definition ex_router ::
  "string \<Rightarrow> string \<Rightarrow> string \<Rightarrow> string \<Rightarrow> string option \<Rightarrow> string RouterInfo" where
  "ex_router n p s rule tls =
     \<lparr>RouterInfo.EntryPoints = [''web''], RouterInfo.Middlewares = [''auth''],
      RouterInfo.Service = n, RouterInfo.Rule = rule, RuleSyntax = [], Priority = 0,
      Observability = None, RouterInfo.Status = s, Using = [''web''], RouterInfo.Name = n,
      RouterInfo.Provider = p, RouterInfo.TLS = tls\<rparr>"

definition ex_webapp :: "string RouterInfo" where
  "ex_webapp = ex_router ''webapp@docker'' ''docker'' ''enabled'' ''Host(app.example.com)'' None"

definition ex_api :: "string RouterInfo" where
  "ex_api = ex_router ''api@docker'' ''docker'' ''enabled'' ''Host(api.example.com)'' (Some ''own'')"

definition ex_dashboard :: "string RouterInfo" where
  "ex_dashboard = ex_router ''dashboard@internal'' ''internal'' ''enabled'' ''PathPrefix(/)'' None"

definition ex_memos_docker :: "string RouterInfo" where
  "ex_memos_docker = ex_router ''memos@docker'' ''docker'' ''enabled'' ''Host(a)'' None"

definition ex_memos_file :: "string RouterInfo" where
  "ex_memos_file = ex_router ''memos@file'' ''file'' ''enabled'' ''Host(b)'' None"

definition ex_host1 :: Upstream where
  "ex_host1 = \<lparr>Upstream.Name = ''host1'', AdminURL = ''http://10.0.0.1:8080/'',
                ServerURL = ''http://10.0.0.1:80''\<rparr>"

definition ex_host2 :: Upstream where
  "ex_host2 = \<lparr>Upstream.Name = ''host2'', AdminURL = ''http://10.0.0.2:8080'',
                ServerURL = ''http://10.0.0.2:80''\<rparr>"

definition ex_config :: "string \<Rightarrow> string Config" where
  "ex_config p =
     \<lparr>Upstreams = [ex_host1, ex_host2],
      Config.Routers = \<lparr>Selector = \<lparr>RouterSelector.Provider = p, RouterSelector.Status = ''enabled''\<rparr>,
                        Defaults = \<lparr>RouterDefaults.EntryPoints = [''websecure''],
                                    RouterDefaults.Middlewares = [],
                                    RouterDefaults.TLS = Some ''letsencrypt''\<rparr>\<rparr>\<rparr>"

text \<open>The answers of the two upstreams: \<open>host1\<close> reports the routers \<open>rs1\<close>; \<open>host2\<close>
  reports the routers \<open>rs2\<close>, or does not respond when \<open>up2\<close> is false.\<close>

definition ex_world :: "string RouterInfo list \<Rightarrow> bool \<Rightarrow> string RouterInfo list \<Rightarrow> string world" where
  "ex_world rs1 up2 rs2 =
     \<lparr>httpGet = (\<lambda>url.
        if url = ''http://10.0.0.1:8080/api/http/routers''
          then Inr \<lparr>StatusCode = 200, BodyBytes = ''one'', BodyErr = None\<rparr>
        else if url = ''http://10.0.0.2:8080/api/http/routers'' \<and> up2
          then Inr \<lparr>StatusCode = 200, BodyBytes = ''two'', BodyErr = None\<rparr>
        else Inl ''timeout''),
      jsonUnmarshal = (\<lambda>body.
        if body = ''one'' then Inr (map Some rs1)
        else if body = ''two'' then Inr (map Some rs2)
        else Inl ''unexpected end of JSON input'')\<rparr>"

text \<open>A configuration without provider criterion and without defaults, and two upstreams
  of which one is named like the other followed by a hyphen and more.\<close>

definition ex_config_plain :: "string Config" where
  "ex_config_plain =
     \<lparr>Upstreams = [ex_host1, ex_host2],
      Config.Routers = \<lparr>Selector = \<lparr>RouterSelector.Provider = [], RouterSelector.Status = ''enabled''\<rparr>,
                        Defaults = \<lparr>RouterDefaults.EntryPoints = [],
                                    RouterDefaults.Middlewares = [],
                                    RouterDefaults.TLS = None\<rparr>\<rparr>\<rparr>"

definition ex_a :: Upstream where
  "ex_a = \<lparr>Upstream.Name = ''a'', AdminURL = ''http://10.0.0.1:8080'',
            ServerURL = ''http://10.0.0.1:80''\<rparr>"

definition ex_a_b :: Upstream where
  "ex_a_b = \<lparr>Upstream.Name = ''a-b'', AdminURL = ''http://10.0.0.2:8080'',
              ServerURL = ''http://10.0.0.2:80''\<rparr>"

definition ex_b_c :: "string RouterInfo" where
  "ex_b_c = ex_router ''b-c@docker'' ''docker'' ''enabled'' ''Host(x)'' None"

definition ex_c :: "string RouterInfo" where
  "ex_c = ex_router ''c@docker'' ''docker'' ''enabled'' ''Host(y)'' None"

text \<open>A second environment: it differs from the first at a URL that no configured
  upstream is polled at.\<close>

definition ex_world_other :: "string world" where
  "ex_world_other =
     (ex_world [ex_webapp] True [ex_api])\<lparr>httpGet := (\<lambda>url.
        if url = ''http://10.0.0.3:8080/api/http/routers''
          then Inr \<lparr>StatusCode = 200, BodyBytes = ''one'', BodyErr = None\<rparr>
        else httpGet (ex_world [ex_webapp] True [ex_api]) url)\<rparr>"

text \<open>An environment in which \<open>host1\<close> reports the routers \<open>rs1\<close> and \<open>host2\<close> answers
  with status 200 and the body \<^verbatim>\<open>[null]\<close>, which decodes to one \<^verbatim>\<open>nil\<close> pointer.\<close>

definition ex_world_null :: "string RouterInfo list \<Rightarrow> string world" where
  "ex_world_null rs1 =
     \<lparr>httpGet = (\<lambda>url.
        if url = ''http://10.0.0.1:8080/api/http/routers''
          then Inr \<lparr>StatusCode = 200, BodyBytes = ''one'', BodyErr = None\<rparr>
        else if url = ''http://10.0.0.2:8080/api/http/routers''
          then Inr \<lparr>StatusCode = 200, BodyBytes = ''[null]'', BodyErr = None\<rparr>
        else Inl ''timeout''),
      jsonUnmarshal = (\<lambda>body.
        if body = ''one'' then Inr (map Some rs1)
        else if body = ''[null]'' then Inr [None]
        else Inl ''unexpected end of JSON input'')\<rparr>"

text \<open>Two upstreams with the same name and different server URLs; \<^verbatim>\<open>Validate\<close> accepts
  such a configuration.\<close>

definition ex_dup1 :: Upstream where
  "ex_dup1 = \<lparr>Upstream.Name = ''dup'', AdminURL = ''http://10.0.0.1:8080'',
               ServerURL = ''http://10.0.0.1:80''\<rparr>"

definition ex_dup2 :: Upstream where
  "ex_dup2 = \<lparr>Upstream.Name = ''dup'', AdminURL = ''http://10.0.0.2:8080'',
               ServerURL = ''http://10.0.0.2:80''\<rparr>"

section \<open>Auxiliary lemmas\<close>

lemma FilterRouters_loop_eq:
  "FilterRouters_loop rs p s acc =
     (if None \<in> set rs then None else Some (acc @ filter (code_selected p s) (map the rs)))"
proof (induction rs arbitrary: acc)
  case Nil
  show ?case by simp
next
  case (Cons x rs)
  show ?case
  proof (cases x)
    case None
    then show ?thesis by simp
  next
    case (Some r)
    have "FilterRouters_loop (Some r # rs) p s acc
        = FilterRouters_loop rs p s (if code_selected p s r then acc @ [r] else acc)"
      by (auto simp: code_selected_def)
    then show ?thesis using Some by (simp add: Cons.IH)
  qed
qed

lemma FilterRouters_eq:
  "FilterRouters rs p s =
     (if None \<in> set rs then None else Some (filter (code_selected p s) (map the rs)))"
  by (simp add: FilterRouters_def FilterRouters_loop_eq)

lemma FilterRouters_None_iff: "FilterRouters rs p s = None \<longleftrightarrow> None \<in> set rs"
  by (simp add: FilterRouters_eq)

lemma map_upd_add_rev:
  "m(k \<mapsto> v) ++ map_of (rev xs) = m ++ map_of (rev ((k, v) # xs))"
proof -
  have "m(k \<mapsto> v) = m ++ [k \<mapsto> v]" by simp
  then show ?thesis
    by (simp only: rev.simps map_of_append map_add_assoc map_of.simps fst_conv snd_conv)
qed

lemma addRouters_eq:
  "addRouters u svc rs h =
     h\<lparr>Routers := Routers h ++
        map_of (rev (map (\<lambda>r. (routerName (Upstream.Name u) (RouterInfo.Name r), newRouter svc r)) rs))\<rparr>"
proof (induction rs arbitrary: h)
  case Nil
  show ?case by simp
next
  case (Cons r rs)
  let ?kv = "\<lambda>r. (routerName (Upstream.Name u) (RouterInfo.Name r), newRouter svc r)"
  let ?h = "h\<lparr>Routers := (Routers h)(fst (?kv r) \<mapsto> snd (?kv r))\<rparr>"
  have "addRouters u svc (r # rs) h = addRouters u svc rs ?h" by simp
  also have "\<dots> = ?h\<lparr>Routers := Routers ?h ++ map_of (rev (map ?kv rs))\<rparr>" by (rule Cons.IH)
  also have "\<dots> = h\<lparr>Routers := (Routers h)(fst (?kv r) \<mapsto> snd (?kv r)) ++ map_of (rev (map ?kv rs))\<rparr>"
    by simp
  also have "(Routers h)(fst (?kv r) \<mapsto> snd (?kv r)) ++ map_of (rev (map ?kv rs))
      = Routers h ++ map_of (rev (map ?kv (r # rs)))"
    by (simp only: map_upd_add_rev list.map prod.collapse)
  finally show ?case .
qed

lemma addRouters_defaults_eq:
  "addRouters_defaults d u svc rs h =
     h\<lparr>Routers := Routers h ++
        map_of (rev (map (\<lambda>r. (routerName (Upstream.Name u) (RouterInfo.Name r),
                                newRouter_defaults d svc r)) rs))\<rparr>"
proof (induction rs arbitrary: h)
  case Nil
  show ?case by simp
next
  case (Cons r rs)
  let ?kv = "\<lambda>r. (routerName (Upstream.Name u) (RouterInfo.Name r), newRouter_defaults d svc r)"
  let ?h = "h\<lparr>Routers := (Routers h)(fst (?kv r) \<mapsto> snd (?kv r))\<rparr>"
  have "addRouters_defaults d u svc (r # rs) h = addRouters_defaults d u svc rs ?h" by simp
  also have "\<dots> = ?h\<lparr>Routers := Routers ?h ++ map_of (rev (map ?kv rs))\<rparr>" by (rule Cons.IH)
  also have "\<dots> = h\<lparr>Routers := (Routers h)(fst (?kv r) \<mapsto> snd (?kv r)) ++ map_of (rev (map ?kv rs))\<rparr>"
    by simp
  also have "(Routers h)(fst (?kv r) \<mapsto> snd (?kv r)) ++ map_of (rev (map ?kv rs))
      = Routers h ++ map_of (rev (map ?kv (r # rs)))"
    by (simp only: map_upd_add_rev list.map prod.collapse)
  finally show ?case .
qed

lemma aggregateUpstream_step:
  assumes "clients a (Upstream.Name u) \<noteq> None" and "\<not> nilEntry w a u"
  shows "\<exists>e. aggregateUpstream w a u h = Some (e, step mkRouter w a u h)"
proof -
  from assms obtain c where c: "clients a (Upstream.Name u) = Some c" by auto
  show ?thesis
  proof (cases "GetRouters w c")
    case (Inl err)
    then show ?thesis using c
      by (simp add: aggregateUpstream_def step_def published_def publishedServices_def selected_def)
  next
    case (Inr routers)
    with c assms(2) have "None \<notin> set routers" by (simp add: nilEntry_def)
    then obtain fs where fs: "FilterRouters routers
        (RouterSelector.Provider (Selector (Config.Routers (config a))))
        (RouterSelector.Status (Selector (Config.Routers (config a)))) = Some fs"
      by (simp add: FilterRouters_eq)
    show ?thesis using c Inr fs
      by (simp add: aggregateUpstream_def step_def published_def publishedServices_def selected_def
            addRouters_eq mkRouter_def)
  qed
qed

lemma aggregateUpstream_defaults_step:
  assumes "clients a (Upstream.Name u) \<noteq> None" and "\<not> nilEntry w a u"
  shows "\<exists>e. aggregateUpstream_defaults w a u h
           = Some (e, step (mkRouter_defaults (Defaults (Config.Routers (config a)))) w a u h)"
proof -
  from assms obtain c where c: "clients a (Upstream.Name u) = Some c" by auto
  show ?thesis
  proof (cases "GetRouters w c")
    case (Inl err)
    then show ?thesis using c
      by (simp add: aggregateUpstream_defaults_def step_def published_def publishedServices_def
            selected_def)
  next
    case (Inr routers)
    with c assms(2) have "None \<notin> set routers" by (simp add: nilEntry_def)
    then obtain fs where fs: "FilterRouters routers
        (RouterSelector.Provider (Selector (Config.Routers (config a))))
        (RouterSelector.Status (Selector (Config.Routers (config a)))) = Some fs"
      by (simp add: FilterRouters_eq)
    show ?thesis using c Inr fs
      by (simp add: aggregateUpstream_defaults_def step_def published_def publishedServices_def
            selected_def addRouters_defaults_eq mkRouter_defaults_def)
  qed
qed

lemma aggregateUpstream_nilEntry:
  assumes "nilEntry w a u"
  shows "aggregateUpstream w a u h = None" and "aggregateUpstream_defaults w a u h = None"
  using assms
  by (auto simp: nilEntry_def aggregateUpstream_def aggregateUpstream_defaults_def
        FilterRouters_eq split: option.splits sum.splits)

lemma published_Cons:
  "published mk w a (u # us) = published mk w a [u] @ published mk w a us"
  by (simp add: published_def)

lemma publishedServices_Cons:
  "publishedServices w a (u # us) = publishedServices w a [u] @ publishedServices w a us"
  by (simp add: publishedServices_def)

lemma outcome_Nil: "outcome mk w a [] h = h"
  by (simp add: outcome_def published_def publishedServices_def)

lemma outcome_Cons: "outcome mk w a (u # us) h = outcome mk w a us (step mk w a u h)"
  by (simp add: outcome_def step_def published_Cons [of mk w a u us]
        publishedServices_Cons [of w a u us])

lemma Aggregate_loop_outcome:
  "\<forall>u\<in>set ups. clients a (Upstream.Name u) \<noteq> None \<Longrightarrow>
     Aggregate_loop w a ups h
       = (if \<exists>u\<in>set ups. nilEntry w a u then None else Some (outcome mkRouter w a ups h))"
proof (induction ups arbitrary: h)
  case Nil
  show ?case by (simp add: outcome_Nil)
next
  case (Cons u us)
  from Cons.prems have cu: "clients a (Upstream.Name u) \<noteq> None"
    and cus: "\<forall>u\<in>set us. clients a (Upstream.Name u) \<noteq> None" by simp_all
  show ?case
  proof (cases "nilEntry w a u")
    case True
    then show ?thesis by (simp add: aggregateUpstream_nilEntry)
  next
    case False
    with cu obtain e where e: "aggregateUpstream w a u h = Some (e, step mkRouter w a u h)"
      using aggregateUpstream_step by blast
    show ?thesis using e False by (cases e) (simp_all add: Cons.IH [OF cus] outcome_Cons)
  qed
qed

lemma Aggregate_loop_defaults_outcome:
  "\<forall>u\<in>set ups. clients a (Upstream.Name u) \<noteq> None \<Longrightarrow>
     Aggregate_loop_defaults w a ups h
       = (if \<exists>u\<in>set ups. nilEntry w a u then None
          else Some (outcome (mkRouter_defaults (Defaults (Config.Routers (config a)))) w a ups h))"
proof (induction ups arbitrary: h)
  case Nil
  show ?case by (simp add: outcome_Nil)
next
  case (Cons u us)
  let ?mk = "mkRouter_defaults (Defaults (Config.Routers (config a)))"
  from Cons.prems have cu: "clients a (Upstream.Name u) \<noteq> None"
    and cus: "\<forall>u\<in>set us. clients a (Upstream.Name u) \<noteq> None" by simp_all
  show ?case
  proof (cases "nilEntry w a u")
    case True
    then show ?thesis by (simp add: aggregateUpstream_nilEntry)
  next
    case False
    with cu obtain e where e: "aggregateUpstream_defaults w a u h = Some (e, step ?mk w a u h)"
      using aggregateUpstream_defaults_step by blast
    show ?thesis using e False by (cases e) (simp_all add: Cons.IH [OF cus] outcome_Cons)
  qed
qed

lemma dom_New_loop: "dom (New_loop ups m) = dom m \<union> Upstream.Name ` set ups"
  by (induction ups arbitrary: m) (auto simp: Let_def)

lemma clients_New: "u \<in> set (Upstreams cfg) \<Longrightarrow> clients (New cfg) (Upstream.Name u) \<noteq> None"
proof -
  assume "u \<in> set (Upstreams cfg)"
  then have "Upstream.Name u \<in> dom (New_loop (Upstreams cfg) Map.empty)"
    by (simp add: dom_New_loop)
  then show ?thesis by (auto simp: New_def)
qed

lemma config_New: "config (New cfg) = cfg"
  by (simp add: New_def)

lemma Aggregate_New:
  "Aggregate w (New cfg)
     = (if \<exists>u\<in>set (Upstreams cfg). nilEntry w (New cfg) u then None
        else Some (outcome mkRouter w (New cfg) (Upstreams cfg) emptyConfig, None))"
  by (simp add: Aggregate_def config_New Aggregate_loop_outcome clients_New)

lemma Aggregate_defaults_New:
  "Aggregate_defaults w (New cfg)
     = (if \<exists>u\<in>set (Upstreams cfg). nilEntry w (New cfg) u then None
        else Some (outcome (mkRouter_defaults (Defaults (Config.Routers cfg))) w (New cfg)
                     (Upstreams cfg) emptyConfig, None))"
  by (simp add: Aggregate_defaults_def config_New Aggregate_loop_defaults_outcome clients_New)

lemma Aggregate_None_iff:
  "Aggregate w (New cfg) = None \<longleftrightarrow> (\<exists>u\<in>set (Upstreams cfg). nilEntry w (New cfg) u)"
  "Aggregate_defaults w (New cfg) = None
     \<longleftrightarrow> (\<exists>u\<in>set (Upstreams cfg). nilEntry w (New cfg) u)"
  by (simp_all add: Aggregate_New Aggregate_defaults_New)

lemma Routers_outcome_empty:
  "Routers (outcome mk w a ups emptyConfig) = map_of (rev (published mk w a ups))"
  by (simp add: outcome_def emptyConfig_def)

lemma Services_outcome_empty:
  "Services (outcome mk w a ups emptyConfig) = map_of (rev (publishedServices w a ups))"
  by (simp add: outcome_def emptyConfig_def)

lemma Index_takeWhile:
  "Index s c = (if c \<in> set s then int (length (takeWhile (\<lambda>x. x \<noteq> c) s)) else -1)"
proof (induction s)
  case Nil
  show ?case by simp
next
  case (Cons x xs)
  show ?case
  proof (cases "x = c")
    case True
    then show ?thesis by simp
  next
    case False
    show ?thesis
    proof (cases "c \<in> set xs")
      case True
      with False Cons.IH show ?thesis by (simp add: Let_def)
    next
      case notin: False
      with False Cons.IH show ?thesis by (simp add: Let_def)
    qed
  qed
qed

lemma baseName_takeWhile: "baseName name = takeWhile (\<lambda>x. x \<noteq> CHR ''@'') name"
proof (cases "CHR ''@'' \<in> set name")
  case True
  have "take (length (takeWhile (\<lambda>x. x \<noteq> CHR ''@'') name)) name
      = takeWhile (\<lambda>x. x \<noteq> CHR ''@'') name"
    by (rule takeWhile_eq_take [symmetric])
  with True show ?thesis by (simp add: baseName_def Index_takeWhile Let_def)
next
  case False
  then have "takeWhile (\<lambda>x. x \<noteq> CHR ''@'') name = name" by auto
  then show ?thesis using False by (simp only: baseName_def Index_takeWhile Let_def) simp
qed

lemma in_published:
  "(k, pr) \<in> set (published mk w a ups) \<longleftrightarrow>
     (\<exists>u\<in>set ups. \<exists>r\<in>set (selected w a u).
        k = routerName (Upstream.Name u) (RouterInfo.Name r) \<and> pr = mk u r)"
  by (auto simp: published_def)

lemma in_publishedServices:
  "(k, s) \<in> set (publishedServices w a ups) \<longleftrightarrow>
     (\<exists>u\<in>set ups. selected w a u \<noteq> [] \<and> k = serviceName (Upstream.Name u) \<and> s = upstreamService u)"
  by (auto simp: publishedServices_def)

lemma map_of_rev_SomeD: "map_of (rev xs) k = Some v \<Longrightarrow> (k, v) \<in> set xs"
  by (drule map_of_SomeD) simp

lemma map_of_rev_defined: "(k, v) \<in> set xs \<Longrightarrow> map_of (rev xs) k \<noteq> None"
proof -
  assume "(k, v) \<in> set xs"
  then have "k \<in> fst ` set (rev xs)" by force
  then show ?thesis by (simp only: map_of_eq_None_iff) simp
qed

lemma routerAt_Aggregate:
  "routerAt (Aggregate w (New cfg)) k
     = (if Aggregate w (New cfg) = None then None
        else map_of (rev (published mkRouter w (New cfg) (Upstreams cfg))) k)"
  by (simp add: routerAt_def Aggregate_New Routers_outcome_empty)

lemma routerAt_Aggregate_defaults:
  "routerAt (Aggregate_defaults w (New cfg)) k
     = (if Aggregate_defaults w (New cfg) = None then None
        else map_of (rev (published (mkRouter_defaults (Defaults (Config.Routers cfg))) w (New cfg)
                            (Upstreams cfg))) k)"
  by (simp add: routerAt_def Aggregate_defaults_New Routers_outcome_empty)

lemma serviceAt_Aggregate:
  "serviceAt (Aggregate w (New cfg)) k
     = (if Aggregate w (New cfg) = None then None
        else map_of (rev (publishedServices w (New cfg) (Upstreams cfg))) k)"
  by (simp add: serviceAt_def Aggregate_New Services_outcome_empty)

lemma serviceAt_Aggregate_defaults:
  "serviceAt (Aggregate_defaults w (New cfg)) k
     = (if Aggregate_defaults w (New cfg) = None then None
        else map_of (rev (publishedServices w (New cfg) (Upstreams cfg))) k)"
  by (simp add: serviceAt_def Aggregate_defaults_New Services_outcome_empty)

lemma routerAt_Some_returns: "routerAt res k = Some pr \<Longrightarrow> res \<noteq> None"
  by (cases res) (simp_all add: routerAt_def)

lemma serviceAt_Some_returns: "serviceAt res k = Some s \<Longrightarrow> res \<noteq> None"
  by (cases res) (simp_all add: serviceAt_def)

lemma routerAt_SomeD:
  "routerAt (Aggregate w (New cfg)) k = Some pr \<Longrightarrow>
     map_of (rev (published mkRouter w (New cfg) (Upstreams cfg))) k = Some pr"
  "routerAt (Aggregate_defaults w (New cfg)) k = Some pr \<Longrightarrow>
     map_of (rev (published (mkRouter_defaults (Defaults (Config.Routers cfg))) w (New cfg)
                     (Upstreams cfg))) k = Some pr"
  by (simp_all add: routerAt_Aggregate routerAt_Aggregate_defaults split: if_splits)

lemma serviceAt_SomeD:
  "serviceAt (Aggregate w (New cfg)) k = Some s \<Longrightarrow>
     map_of (rev (publishedServices w (New cfg) (Upstreams cfg))) k = Some s"
  "serviceAt (Aggregate_defaults w (New cfg)) k = Some s \<Longrightarrow>
     map_of (rev (publishedServices w (New cfg) (Upstreams cfg))) k = Some s"
  by (simp_all add: serviceAt_Aggregate serviceAt_Aggregate_defaults split: if_splits)

lemma Rule_mkRouter: "Router.Rule (mkRouter u r) = RouterInfo.Rule r"
  by (simp add: mkRouter_def newRouter_def Let_def)

lemma Rule_mkRouter_defaults: "Router.Rule (mkRouter_defaults d u r) = RouterInfo.Rule r"
  by (simp add: mkRouter_defaults_def newRouter_defaults_def Let_def)

lemma Service_mkRouter: "Router.Service (mkRouter u r) = serviceName (Upstream.Name u)"
  by (simp add: mkRouter_def newRouter_def Let_def)

lemma Service_mkRouter_defaults:
  "Router.Service (mkRouter_defaults d u r) = serviceName (Upstream.Name u)"
  by (simp add: mkRouter_defaults_def newRouter_defaults_def Let_def)

text \<open>Unfolding the model on the example inputs.\<close>

lemmas ex_defs = ex_world_def ex_config_def ex_host1_def ex_host2_def ex_router_def
  ex_webapp_def ex_api_def ex_dashboard_def ex_memos_docker_def ex_memos_file_def

lemmas ex_defs2 = ex_config_plain_def ex_a_def ex_a_b_def ex_b_c_def ex_c_def

lemmas run_defs = Aggregate_def Aggregate_defaults_def aggregateUpstream_def
  aggregateUpstream_defaults_def New_def NewClient_def TrimSuffix_def GetRouters_def
  FilterRouters_def serviceName_def routerName_def baseName_def upstreamService_def
  newRouter_def newRouter_defaults_def emptyConfig_def routerAt_def serviceAt_def Let_def

lemma selected_cong_world:
  assumes "\<forall>c. clients a (Upstream.Name u) = Some c \<longrightarrow> GetRouters w1 c = GetRouters w2 c"
  shows "selected w1 a u = selected w2 a u" and "nilEntry w1 a u = nilEntry w2 a u"
  using assms by (auto simp: selected_def nilEntry_def split: option.splits)

lemma outcome_cong_selected:
  assumes "\<forall>u\<in>set ups. selected w1 a1 u = selected w2 a2 u"
  shows "outcome mk w1 a1 ups h = outcome mk w2 a2 ups h"
proof -
  have "published mk w1 a1 ups = published mk w2 a2 ups"
    unfolding published_def using assms by (auto intro!: arg_cong [where f = concat])
  moreover have "publishedServices w1 a1 ups = publishedServices w2 a2 ups"
    unfolding publishedServices_def using assms
    by (auto intro!: arg_cong [where f = "map _"] filter_cong)
  ultimately show ?thesis by (simp add: outcome_def)
qed

lemma selected_fetchFails: "fetchFails w a u \<Longrightarrow> selected w a u = []"
  by (auto simp: fetchFails_def selected_def split: option.splits sum.splits)

lemma nilEntry_fetchFails: "fetchFails w a u \<Longrightarrow> \<not> nilEntry w a u"
  by (auto simp: fetchFails_def nilEntry_def split: option.splits sum.splits)

lemma aggregateUpstream_fetchFails:
  assumes "fetchFails w a u"
  shows "\<exists>e. aggregateUpstream w a u h = Some (Some e, h)"
    and "\<exists>e. aggregateUpstream_defaults w a u h = Some (Some e, h)"
  using assms
  by (auto simp: fetchFails_def aggregateUpstream_def aggregateUpstream_defaults_def
        split: option.splits sum.splits)

lemma published_filter:
  assumes "\<forall>u\<in>set ups. \<not> P u \<longrightarrow> selected w a u = []"
  shows "published mk w a (filter P ups) = published mk w a ups"
  using assms by (induction ups) (auto simp: published_def)

lemma publishedServices_filter:
  assumes "\<forall>u\<in>set ups. \<not> P u \<longrightarrow> selected w a u = []"
  shows "publishedServices w a (filter P ups) = publishedServices w a ups"
  using assms by (induction ups) (auto simp: publishedServices_def)

lemma outcome_filter:
  assumes "\<forall>u\<in>set ups. \<not> P u \<longrightarrow> selected w a u = []"
  shows "outcome mk w a (filter P ups) h = outcome mk w a ups h"
  using assms by (simp add: outcome_def published_filter publishedServices_filter)

lemma outcome_all_fail:
  assumes "\<forall>u\<in>set ups. selected w a u = []"
  shows "outcome mk w a ups h = h"
proof -
  have "published mk w a ups = []" using assms by (induction ups) (auto simp: published_def)
  moreover have "publishedServices w a ups = []"
    using assms by (induction ups) (auto simp: publishedServices_def)
  ultimately show ?thesis by (simp add: outcome_def)
qed

lemma find_snoc:
  "find P (xs @ [x]) = (case find P xs of None \<Rightarrow> (if P x then Some x else None) | Some y \<Rightarrow> Some y)"
  by (induction xs) simp_all

lemma New_loop_apply:
  "New_loop ups m n =
     (case find (\<lambda>u. Upstream.Name u = n) (rev ups) of
        None \<Rightarrow> m n
      | Some u \<Rightarrow> Some (NewClient (TrimSuffix (AdminURL u) ''/'' @ ''/api'')))"
proof (induction ups arbitrary: m)
  case Nil
  show ?case by simp
next
  case (Cons u us)
  have "New_loop (u # us) m n
      = New_loop us (m(Upstream.Name u \<mapsto> NewClient (TrimSuffix (AdminURL u) ''/'' @ ''/api''))) n"
    by (simp add: Let_def)
  also have "\<dots> = (case find (\<lambda>u. Upstream.Name u = n) (rev us) of
        None \<Rightarrow> (m(Upstream.Name u \<mapsto> NewClient (TrimSuffix (AdminURL u) ''/'' @ ''/api''))) n
      | Some u \<Rightarrow> Some (NewClient (TrimSuffix (AdminURL u) ''/'' @ ''/api'')))"
    by (rule Cons.IH)
  also have "\<dots> = (case find (\<lambda>u. Upstream.Name u = n) (rev (u # us)) of
        None \<Rightarrow> m n
      | Some u \<Rightarrow> Some (NewClient (TrimSuffix (AdminURL u) ''/'' @ ''/api'')))"
    by (cases "find (\<lambda>u. Upstream.Name u = n) (rev us)") (simp_all add: find_snoc)
  finally show ?case .
qed

lemma find_filter_same:
  "\<forall>x\<in>set xs. Q x \<longrightarrow> P x \<Longrightarrow> find Q (filter P xs) = find Q xs"
  by (induction xs) auto

lemma clients_withoutFailed:
  assumes "\<not> fetchFails w (New cfg) u"
  shows "clients (New (withoutFailed w cfg)) (Upstream.Name u) = clients (New cfg) (Upstream.Name u)"
proof -
  let ?P = "\<lambda>v. \<not> fetchFails w (New cfg) v"
  have "\<forall>v\<in>set (rev (Upstreams cfg)). Upstream.Name v = Upstream.Name u \<longrightarrow> ?P v"
    using assms by (auto simp: fetchFails_def)
  then have "find (\<lambda>v. Upstream.Name v = Upstream.Name u) (filter ?P (rev (Upstreams cfg)))
      = find (\<lambda>v. Upstream.Name v = Upstream.Name u) (rev (Upstreams cfg))"
    by (rule find_filter_same)
  then show ?thesis
    by (simp add: New_def withoutFailed_def New_loop_apply rev_filter)
qed

lemma selected_withoutFailed:
  assumes "\<not> fetchFails w (New cfg) u"
  shows "selected w (New (withoutFailed w cfg)) u = selected w (New cfg) u"
    and "nilEntry w (New (withoutFailed w cfg)) u = nilEntry w (New cfg) u"
proof -
  have "Config.Routers (config (New (withoutFailed w cfg))) = Config.Routers (config (New cfg))"
    by (simp add: config_New withoutFailed_def)
  then show "selected w (New (withoutFailed w cfg)) u = selected w (New cfg) u"
    by (simp add: selected_def clients_withoutFailed [OF assms]
          cong: option.case_cong sum.case_cong)
  show "nilEntry w (New (withoutFailed w cfg)) u = nilEntry w (New cfg) u"
    by (simp add: nilEntry_def clients_withoutFailed [OF assms])
qed

lemma Aggregate_withoutFailed:
  "Aggregate w (New (withoutFailed w cfg)) = Aggregate w (New cfg)"
  "Aggregate_defaults w (New (withoutFailed w cfg)) = Aggregate_defaults w (New cfg)"
proof -
  let ?a = "New cfg" and ?a' = "New (withoutFailed w cfg)"
  let ?ups' = "filter (\<lambda>u. \<not> fetchFails w ?a u) (Upstreams cfg)"
  have ups: "Upstreams (withoutFailed w cfg) = ?ups'" by (simp add: withoutFailed_def)
  have d: "Defaults (Config.Routers (withoutFailed w cfg)) = Defaults (Config.Routers cfg)"
    by (simp add: withoutFailed_def)
  have "outcome mk w ?a' ?ups' h = outcome mk w ?a ?ups' h" for mk h
    by (rule outcome_cong_selected) (simp add: selected_withoutFailed)
  also have "outcome mk w ?a ?ups' h = outcome mk w ?a (Upstreams cfg) h" for mk h
    by (rule outcome_filter) (simp add: selected_fetchFails)
  finally have o: "outcome mk w ?a' ?ups' h = outcome mk w ?a (Upstreams cfg) h" for mk h .
  have n: "(\<exists>u\<in>set ?ups'. nilEntry w ?a' u) \<longleftrightarrow> (\<exists>u\<in>set (Upstreams cfg). nilEntry w ?a u)"
    using nilEntry_fetchFails [of w ?a] by (auto simp: selected_withoutFailed)
  show "Aggregate w ?a' = Aggregate w ?a"
    by (simp only: Aggregate_New ups o n)
  show "Aggregate_defaults w ?a' = Aggregate_defaults w ?a"
    by (simp only: Aggregate_defaults_New ups o d n)
qed

lemma selected_Name:
  "Upstream.Name v = Upstream.Name u \<Longrightarrow> selected w a v = selected w a u"
  by (simp add: selected_def)

lemma serviceName_inject: "serviceName n = serviceName n' \<longleftrightarrow> n = n'"
  by (simp add: serviceName_def)

lemma service_defined_iff:
  assumes "u \<in> set ups"
  shows "map_of (rev (publishedServices w a ups)) (serviceName (Upstream.Name u)) \<noteq> None
           \<longleftrightarrow> selected w a u \<noteq> []"
proof -
  have "map_of (rev (publishedServices w a ups)) (serviceName (Upstream.Name u)) \<noteq> None
      \<longleftrightarrow> serviceName (Upstream.Name u) \<in> fst ` set (publishedServices w a ups)"
    by (simp add: map_of_eq_None_iff)
  also have "\<dots> \<longleftrightarrow> (\<exists>v\<in>set ups. selected w a v \<noteq> [] \<and> Upstream.Name v = Upstream.Name u)"
    by (auto simp: publishedServices_def serviceName_inject image_iff)
  also have "\<dots> \<longleftrightarrow> selected w a u \<noteq> []"
    using assms selected_Name [of _ u w a] by metis
  finally show ?thesis .
qed

lemma service_value:
  assumes "u \<in> set ups" and "distinct (map Upstream.Name ups)" and "selected w a u \<noteq> []"
  shows "map_of (rev (publishedServices w a ups)) (serviceName (Upstream.Name u))
           = Some (upstreamService u)"
proof -
  have "map fst (publishedServices w a ups)
      = map serviceName (map Upstream.Name (filter (\<lambda>u. selected w a u \<noteq> []) ups))"
    by (simp add: publishedServices_def comp_def)
  moreover have "distinct (map Upstream.Name (filter (\<lambda>u. selected w a u \<noteq> []) ups))"
    using assms(2) by (rule distinct_map_filter)
  ultimately have "distinct (map fst (publishedServices w a ups))"
    by (simp add: distinct_map inj_on_def serviceName_inject)
  then have "distinct (map fst (rev (publishedServices w a ups)))"
    by (simp add: rev_map [symmetric])
  moreover have "(serviceName (Upstream.Name u), upstreamService u)
      \<in> set (rev (publishedServices w a ups))"
    using assms(1,3) by (auto simp: publishedServices_def)
  ultimately show ?thesis by (rule map_of_is_SomeI)
qed

lemma service_origin:
  assumes "map_of (rev (publishedServices w a ups)) (serviceName n) = Some s"
  shows "\<exists>v\<in>set ups. Upstream.Name v = n \<and> s = upstreamService v"
proof -
  from assms have "(serviceName n, s) \<in> set (publishedServices w a ups)"
    by (rule map_of_rev_SomeD)
  then show ?thesis by (auto simp: publishedServices_def serviceName_inject)
qed

lemma EntryPoints_mkRouter_defaults:
  "Router.EntryPoints (mkRouter_defaults d u r) = RouterDefaults.EntryPoints d"
  "Router.Middlewares (mkRouter_defaults d u r) = RouterDefaults.Middlewares d"
  by (simp_all add: mkRouter_defaults_def newRouter_defaults_def Let_def)

lemma EntryPoints_mkRouter:
  "Router.EntryPoints (mkRouter u r) = RouterInfo.EntryPoints r"
  "Router.Middlewares (mkRouter u r) = RouterInfo.Middlewares r"
  by (simp_all add: mkRouter_def newRouter_def Let_def)

lemma TLS_mkRouter_defaults:
  "Router.TLS (mkRouter_defaults d u r)
     = (case RouterDefaults.TLS d of Some t \<Rightarrow> Some t | None \<Rightarrow> RouterInfo.TLS r)"
  by (simp add: mkRouter_defaults_def newRouter_defaults_def Let_def split: option.splits)

lemma TLS_mkRouter: "Router.TLS (mkRouter u r) = RouterInfo.TLS r"
  by (simp add: mkRouter_def newRouter_def Let_def)

lemma published_origin:
  assumes "map_of (rev (published mk w a ups)) k = Some pr"
  shows "\<exists>u\<in>set ups. \<exists>r\<in>set (selected w a u).
           k = routerName (Upstream.Name u) (RouterInfo.Name r) \<and> pr = mk u r"
proof -
  from assms have "(k, pr) \<in> set (published mk w a ups)" by (rule map_of_rev_SomeD)
  then show ?thesis by (simp only: in_published)
qed

lemma key_collision_cases:
  assumes "a @ ''-'' @ x = b @ ''-'' @ y"
  shows "a = b \<or> prefix (a @ ''-'') b \<or> prefix (b @ ''-'') a"
proof -
  from assms consider us where "a = b @ us" "us @ ''-'' @ x = ''-'' @ y"
    | us where "a @ us = b" "''-'' @ x = us @ ''-'' @ y"
    by (auto simp: append_eq_append_conv2)
  then show ?thesis
  proof cases
    case 1
    then show ?thesis by (cases us) (auto simp: prefix_def)
  next
    case 2
    then show ?thesis by (cases us) (auto simp: prefix_def)
  qed
qed

lemma keys_of_upstream_distinct:
  assumes "distinct (map (\<lambda>r. baseName (RouterInfo.Name r)) rs)"
  shows "distinct (map (\<lambda>r. routerName n (RouterInfo.Name r)) rs)"
proof -
  have eq: "map (\<lambda>r. routerName n (RouterInfo.Name r)) rs
      = map (\<lambda>b. n @ ''-'' @ b) (map (\<lambda>r. baseName (RouterInfo.Name r)) rs)"
    by (simp add: routerName_def comp_def)
  have "inj_on (\<lambda>b. n @ ''-'' @ b) (set (map (\<lambda>r. baseName (RouterInfo.Name r)) rs))"
    by (simp add: inj_on_def)
  with assms have "distinct (map (\<lambda>b. n @ ''-'' @ b) (map (\<lambda>r. baseName (RouterInfo.Name r)) rs))"
    by (simp only: distinct_map)
  then show ?thesis by (simp only: eq)
qed

lemma published_keys_distinct:
  assumes "distinct (map Upstream.Name ups)"
    and "\<forall>u1\<in>set ups. \<forall>u2\<in>set ups. \<not> prefix (Upstream.Name u1 @ ''-'') (Upstream.Name u2)"
    and "\<forall>u\<in>set ups. distinct (map (\<lambda>r. baseName (RouterInfo.Name r))
                                   (selected (w :: 'tls world) a u))"
  shows "distinct (map fst (published mk w a ups))"
  using assms
proof (induction ups)
  case Nil
  show ?case by (simp add: published_def)
next
  case (Cons u us)
  have split: "map fst (published mk w a (u # us))
      = map (\<lambda>r. routerName (Upstream.Name u) (RouterInfo.Name r)) (selected w a u)
        @ map fst (published mk w a us)"
    by (simp add: published_def comp_def)
  have 1: "distinct (map (\<lambda>r. routerName (Upstream.Name u) (RouterInfo.Name r)) (selected w a u))"
    using Cons.prems(3) by (simp add: keys_of_upstream_distinct)
  have 2: "distinct (map fst (published mk w a us))"
    using Cons.prems by (intro Cons.IH) simp_all
  have 3: "k \<notin> fst ` set (published mk w a us)"
    if "k \<in> (\<lambda>r. routerName (Upstream.Name u) (RouterInfo.Name r)) ` set (selected w a u)" for k
  proof
    assume "k \<in> fst ` set (published mk w a us)"
    then obtain pr where "(k, pr) \<in> set (published mk w a us)" by force
    then obtain v and r' :: "'tls RouterInfo" where v: "v \<in> set us"
      and k': "k = routerName (Upstream.Name v) (RouterInfo.Name r')"
      by (auto simp: in_published)
    from that obtain r :: "'tls RouterInfo"
      where k: "k = routerName (Upstream.Name u) (RouterInfo.Name r)" by auto
    from k k' have "Upstream.Name u @ ''-'' @ baseName (RouterInfo.Name r)
        = Upstream.Name v @ ''-'' @ baseName (RouterInfo.Name r')"
      by (simp add: routerName_def)
    then have "Upstream.Name u = Upstream.Name v
        \<or> prefix (Upstream.Name u @ ''-'') (Upstream.Name v)
        \<or> prefix (Upstream.Name v @ ''-'') (Upstream.Name u)"
      by (rule key_collision_cases)
    moreover from v Cons.prems(1) have "Upstream.Name u \<noteq> Upstream.Name v" by auto
    moreover from v Cons.prems(2) have "\<not> prefix (Upstream.Name u @ ''-'') (Upstream.Name v)"
      "\<not> prefix (Upstream.Name v @ ''-'') (Upstream.Name u)" by simp_all
    ultimately show False by blast
  qed
  show ?case unfolding split using 1 2 3 by (auto simp: image_iff)
qed

lemma map_of_rev_distinct:
  assumes "distinct (map fst kvs)" and "(k, v) \<in> set kvs"
  shows "map_of (rev kvs) k = Some v"
proof -
  have "distinct (map fst (rev kvs))" using assms(1) by (simp add: rev_map [symmetric])
  moreover have "(k, v) \<in> set (rev kvs)" using assms(2) by simp
  ultimately show ?thesis by (rule map_of_is_SomeI)
qed

section \<open>The claims\<close>

subsection \<open>Selection\<close>

text \<open>On a list without \<^verbatim>\<open>nil\<close> entry, \<^verbatim>\<open>FilterRouters\<close> returns exactly the routers
  that do not have provider \<^verbatim>\<open>internal\<close>, have the criteria's provider whenever that is
  non-empty, and have the criteria's status whenever that is non-empty, in the order of the
  input. For a non-empty status (\<^verbatim>\<open>config.Load\<close> replaces an empty one by
  \<^verbatim>\<open>enabled\<close>) this is the selection of the specification.\<close>

lemma FilterRouters_selection:
  assumes "None \<notin> set routers"
  shows "FilterRouters routers provider status
           = Some (filter (code_selected provider status) (map the routers))"
    and "status \<noteq> [] \<Longrightarrow>
         FilterRouters routers provider status
           = Some (filter (spec_selected provider status) (map the routers))"
proof -
  show 1: "FilterRouters routers provider status
      = Some (filter (code_selected provider status) (map the routers))"
    using assms by (simp add: FilterRouters_eq)
  have "status \<noteq> [] \<Longrightarrow>
      code_selected provider status = (spec_selected provider status :: 'a RouterInfo \<Rightarrow> bool)"
    by (auto simp: code_selected_def spec_selected_def fun_eq_iff)
  then show "status \<noteq> [] \<Longrightarrow>
      FilterRouters routers provider status
        = Some (filter (spec_selected provider status) (map the routers))"
    using 1 by simp
qed

text \<open>Claim C5 on the code: for every router list and criteria, the selection returns the
  selected routers. \<^verbatim>\<open>FilterRouters\<close> does so only on lists without \<^verbatim>\<open>nil\<close> entry: a
  list with a \<^verbatim>\<open>nil\<close> entry anywhere makes it panic, whatever the criteria, instead of
  returning the routers it selects.\<close>

theorem FilterRouters_nil_entry_panics:
  "FilterRouters (xs @ None # ys) provider status = None"
  by (simp add: FilterRouters_eq)

subsection \<open>Failure isolation\<close>

text \<open>What holds of the isolation of failures. A failing fetch makes
  \<^verbatim>\<open>aggregateUpstream\<close> return the configuration as it was; the result of the cycle is that
  for the configuration without the failing upstreams; when every fetch fails the result is
  the empty configuration with a \<^verbatim>\<open>nil\<close> error; and when no answer has a \<^verbatim>\<open>nil\<close>
  entry, \<^verbatim>\<open>Aggregate\<close> returns with a \<^verbatim>\<open>nil\<close> error. Both variants of the aggregator.\<close>

lemma fetch_failure_isolation:
  "(\<forall>v\<in>set (Upstreams cfg). \<not> nilEntry w (New cfg) v) \<longrightarrow>
      map_option snd (Aggregate w (New cfg)) = Some None
      \<and> map_option snd (Aggregate_defaults w (New cfg)) = Some None"
  "fetchFails w (New cfg) u \<longrightarrow>
      map_option snd (aggregateUpstream w (New cfg) u h) = Some h
      \<and> map_option snd (aggregateUpstream_defaults w (New cfg) u h) = Some h"
  "Aggregate w (New cfg) = Aggregate w (New (withoutFailed w cfg))"
  "Aggregate_defaults w (New cfg) = Aggregate_defaults w (New (withoutFailed w cfg))"
  "(\<forall>v\<in>set (Upstreams cfg). fetchFails w (New cfg) v) \<longrightarrow>
      Aggregate w (New cfg) = Some (emptyConfig, None)
      \<and> Aggregate_defaults w (New cfg) = Some (emptyConfig, None)"
proof -
  show "(\<forall>v\<in>set (Upstreams cfg). \<not> nilEntry w (New cfg) v) \<longrightarrow>
      map_option snd (Aggregate w (New cfg)) = Some None
      \<and> map_option snd (Aggregate_defaults w (New cfg)) = Some None"
    by (simp add: Aggregate_New Aggregate_defaults_New)
  show "fetchFails w (New cfg) u \<longrightarrow>
      map_option snd (aggregateUpstream w (New cfg) u h) = Some h
      \<and> map_option snd (aggregateUpstream_defaults w (New cfg) u h) = Some h"
    using aggregateUpstream_fetchFails [of w "New cfg" u h] by auto
  show "Aggregate w (New cfg) = Aggregate w (New (withoutFailed w cfg))"
    "Aggregate_defaults w (New cfg) = Aggregate_defaults w (New (withoutFailed w cfg))"
    by (simp_all add: Aggregate_withoutFailed)
  show "(\<forall>v\<in>set (Upstreams cfg). fetchFails w (New cfg) v) \<longrightarrow>
      Aggregate w (New cfg) = Some (emptyConfig, None)
      \<and> Aggregate_defaults w (New cfg) = Some (emptyConfig, None)"
  proof
    assume all: "\<forall>v\<in>set (Upstreams cfg). fetchFails w (New cfg) v"
    then have "\<forall>v\<in>set (Upstreams cfg). selected w (New cfg) v = []"
      by (simp add: selected_fetchFails)
    then have "outcome mk w (New cfg) (Upstreams cfg) emptyConfig = emptyConfig" for mk
      by (rule outcome_all_fail)
    moreover from all have "\<not> (\<exists>v\<in>set (Upstreams cfg). nilEntry w (New cfg) v)"
      by (auto dest: nilEntry_fetchFails)
    ultimately show "Aggregate w (New cfg) = Some (emptyConfig, None)
        \<and> Aggregate_defaults w (New cfg) = Some (emptyConfig, None)"
      by (simp add: Aggregate_New Aggregate_defaults_New)
  qed
qed

text \<open>Claim C6 on the code: \<^verbatim>\<open>Aggregate\<close> never fails, and an upstream with a bad answer
  contributes nothing while the others are unaffected. The code isolates the errors that
  \<^verbatim>\<open>GetRouters\<close> returns, but not an answer that decodes to a list with a \<^verbatim>\<open>nil\<close>
  entry: with \<open>host1\<close> answering one router and \<open>host2\<close> answering \<^verbatim>\<open>[null]\<close> with status
  200, the whole cycle panics in both variants, although \<open>host1\<close> alone gives a cycle that
  publishes \<open>host1-webapp\<close>.\<close>

theorem Aggregate_nil_entry_panics:
  "Aggregate (ex_world_null [ex_webapp]) (New (ex_config ''docker'')) = None
   \<and> Aggregate_defaults (ex_world_null [ex_webapp]) (New (ex_config ''docker'')) = None
   \<and> map_option Router.Service
         (routerAt (Aggregate (ex_world_null [ex_webapp])
            (New ((ex_config ''docker'')\<lparr>Upstreams := [ex_host1]\<rparr>))) ''host1-webapp'')
       = Some ''host1-traefik''
   \<and> map_option Router.Service
         (routerAt (Aggregate_defaults (ex_world_null [ex_webapp])
            (New ((ex_config ''docker'')\<lparr>Upstreams := [ex_host1]\<rparr>))) ''host1-webapp'')
       = Some ''host1-traefik''"
  by (simp add: ex_world_null_def ex_defs run_defs)

subsection \<open>Referential integrity\<close>

text \<open>Claim C10. In every aggregation output, the service name of every published router is
  a key of the services of the same output, in both variants of the aggregator.\<close>

theorem referential_integrity:
  "(routerAt (Aggregate w (New cfg)) k = Some pr \<longrightarrow>
      serviceAt (Aggregate w (New cfg)) (Router.Service pr) \<noteq> None)
   \<and> (routerAt (Aggregate_defaults w (New cfg)) k = Some pr \<longrightarrow>
      serviceAt (Aggregate_defaults w (New cfg)) (Router.Service pr) \<noteq> None)"
proof -
  have *: "map_of (rev (publishedServices w (New cfg) (Upstreams cfg))) (Router.Service pr) \<noteq> None"
    if "map_of (rev (published mk w (New cfg) (Upstreams cfg))) k = Some pr"
      and mk: "\<And>u r. Router.Service (mk u r) = serviceName (Upstream.Name u)" for mk
  proof -
    from that(1) have "(k, pr) \<in> set (published mk w (New cfg) (Upstreams cfg))"
      by (rule map_of_rev_SomeD)
    then obtain u r where u: "u \<in> set (Upstreams cfg)" and r: "r \<in> set (selected w (New cfg) u)"
      and pr: "pr = mk u r" by (auto simp: in_published)
    from r have "selected w (New cfg) u \<noteq> []" by auto
    with u have "(serviceName (Upstream.Name u), upstreamService u)
        \<in> set (publishedServices w (New cfg) (Upstreams cfg))"
      by (auto simp: in_publishedServices)
    then have "map_of (rev (publishedServices w (New cfg) (Upstreams cfg)))
        (serviceName (Upstream.Name u)) \<noteq> None" by (rule map_of_rev_defined)
    then show ?thesis by (simp add: pr mk)
  qed
  have 1: "serviceAt (Aggregate w (New cfg)) (Router.Service pr) \<noteq> None"
    if "routerAt (Aggregate w (New cfg)) k = Some pr"
  proof -
    from that have "Aggregate w (New cfg) \<noteq> None" by (rule routerAt_Some_returns)
    then show ?thesis
      using * [of mkRouter, OF routerAt_SomeD(1) [OF that] Service_mkRouter]
      by (simp add: serviceAt_Aggregate)
  qed
  have 2: "serviceAt (Aggregate_defaults w (New cfg)) (Router.Service pr) \<noteq> None"
    if "routerAt (Aggregate_defaults w (New cfg)) k = Some pr"
  proof -
    from that have "Aggregate_defaults w (New cfg) \<noteq> None" by (rule routerAt_Some_returns)
    then show ?thesis
      using * [of "mkRouter_defaults (Defaults (Config.Routers cfg))",
          OF routerAt_SomeD(2) [OF that] Service_mkRouter_defaults]
      by (simp add: serviceAt_Aggregate_defaults)
  qed
  show ?thesis using 1 2 by blast
qed

theorem referential_integrity_witness:
  "routerAt (Aggregate (ex_world [ex_webapp] True [ex_api]) (New (ex_config ''docker''))) ''host2-api''
     = Some \<lparr>Router.Rule = ''Host(api.example.com)'', Router.Service = ''host2-traefik'',
              Router.EntryPoints = [''web''], Router.Middlewares = [''auth''],
              Router.TLS = Some ''own''\<rparr>
   \<and> serviceAt (Aggregate (ex_world [ex_webapp] True [ex_api]) (New (ex_config ''docker'')))
         ''host2-traefik'' \<noteq> None
   \<and> routerAt (Aggregate_defaults (ex_world [ex_webapp] True [ex_api]) (New (ex_config ''docker'')))
         ''host2-api''
     = Some \<lparr>Router.Rule = ''Host(api.example.com)'', Router.Service = ''host2-traefik'',
              Router.EntryPoints = [''websecure''], Router.Middlewares = [],
              Router.TLS = Some ''letsencrypt''\<rparr>
   \<and> serviceAt (Aggregate_defaults (ex_world [ex_webapp] True [ex_api]) (New (ex_config ''docker'')))
         ''host2-traefik'' \<noteq> None"
proof -
  let ?w = "ex_world [ex_webapp] True [ex_api]"
  let ?cfg = "ex_config ''docker''"
  let ?p1 = "\<lparr>Router.Rule = ''Host(api.example.com)'', Router.Service = ''host2-traefik'',
              Router.EntryPoints = [''web''], Router.Middlewares = [''auth''],
              Router.TLS = Some ''own''\<rparr>"
  let ?p2 = "\<lparr>Router.Rule = ''Host(api.example.com)'', Router.Service = ''host2-traefik'',
              Router.EntryPoints = [''websecure''], Router.Middlewares = [],
              Router.TLS = Some ''letsencrypt''\<rparr>"
  have 1: "routerAt (Aggregate ?w (New ?cfg)) ''host2-api'' = Some ?p1"
    by (simp add: ex_defs run_defs)
  have 2: "routerAt (Aggregate_defaults ?w (New ?cfg)) ''host2-api'' = Some ?p2"
    by (simp add: ex_defs run_defs)
  show ?thesis
    using 1 2 referential_integrity [of ?w ?cfg "''host2-api''" ?p1]
      referential_integrity [of ?w ?cfg "''host2-api''" ?p2]
    by simp
qed

subsection \<open>Determinism\<close>

text \<open>Claim C9. Two runs of \<^verbatim>\<open>Aggregate\<close> over the same configuration, in two
  environments in which every configured upstream gives the same response, yield the same
  result: the same router keys with equal routers and the same service keys with equal
  services. Both variants of the aggregator.\<close>

theorem Aggregate_same_responses:
  assumes "\<forall>u\<in>set (Upstreams cfg). \<forall>c. clients (New cfg) (Upstream.Name u) = Some c
             \<longrightarrow> GetRouters w1 c = GetRouters w2 c"
  shows "Aggregate w1 (New cfg) = Aggregate w2 (New cfg)
       \<and> Aggregate_defaults w1 (New cfg) = Aggregate_defaults w2 (New cfg)"
proof -
  have "\<forall>u\<in>set (Upstreams cfg). selected w1 (New cfg) u = selected w2 (New cfg) u"
    using assms by (auto intro: selected_cong_world)
  then have "outcome mk w1 (New cfg) (Upstreams cfg) h = outcome mk w2 (New cfg) (Upstreams cfg) h"
    for mk h by (rule outcome_cong_selected)
  moreover have "(\<exists>u\<in>set (Upstreams cfg). nilEntry w1 (New cfg) u)
      \<longleftrightarrow> (\<exists>u\<in>set (Upstreams cfg). nilEntry w2 (New cfg) u)"
    using assms selected_cong_world(2) [of "New cfg" _ w1 w2] by blast
  ultimately show ?thesis by (simp only: Aggregate_New Aggregate_defaults_New)
qed

theorem Aggregate_same_responses_witness:
  "Aggregate (ex_world [ex_webapp] True [ex_api]) (New (ex_config ''docker''))
     = Aggregate ex_world_other (New (ex_config ''docker''))
   \<and> Aggregate_defaults (ex_world [ex_webapp] True [ex_api]) (New (ex_config ''docker''))
     = Aggregate_defaults ex_world_other (New (ex_config ''docker''))
   \<and> httpGet (ex_world [ex_webapp] True [ex_api]) ''http://10.0.0.3:8080/api/http/routers''
     \<noteq> httpGet ex_world_other ''http://10.0.0.3:8080/api/http/routers''"
proof -
  have h: "\<forall>u\<in>set (Upstreams (ex_config ''docker'')).
      \<forall>c. clients (New (ex_config ''docker'')) (Upstream.Name u) = Some c
        \<longrightarrow> GetRouters (ex_world [ex_webapp] True [ex_api]) c = GetRouters ex_world_other c"
    by (simp add: ex_world_other_def ex_defs run_defs)
  show ?thesis using Aggregate_same_responses [OF h]
    by (simp add: ex_world_other_def ex_world_def)
qed


subsection \<open>Delivery to the file writer\<close>

text \<open>Claim C2, as the code has it. \<^verbatim>\<open>runAggregation\<close> always completes its send to
  the one-slot channel of the file writer without blocking. When a snapshot is still
  pending in the slot, the pending snapshot stays (it is what the writer receives next) and
  the new one is not delivered to the file writer; when the slot is free, the new snapshot
  becomes the pending one.\<close>

theorem runAggregation_full_slot:
  assumes "aggregate w agg = Some (new, None)" and "capacity ch = 1"
  shows "runAggregation aggregate w agg srv (Some ch) \<noteq> None
       \<and> (pending ch = [old] \<longrightarrow>
            runAggregation aggregate w agg srv (Some ch)
              = Some (map_option (UpdateConfig new) srv, Some ch)
            \<and> map_option fst (receive ch) = Some old)
       \<and> (pending ch = [] \<longrightarrow>
            runAggregation aggregate w agg srv (Some ch)
              = Some (map_option (UpdateConfig new) srv, Some (ch\<lparr>pending := [new]\<rparr>)))"
  using assms
  by (cases srv) (simp_all add: runAggregation_def select_send_def receive_def)

theorem runAggregation_full_slot_witness:
  "Aggregate_defaults (ex_world [ex_webapp] True [ex_api]) (New (ex_config ''docker'')) \<noteq> None
   \<and> capacity \<lparr>capacity = 1, pending = [emptyConfig :: string HTTPConfiguration]\<rparr> = 1
   \<and> map_option snd (runAggregation Aggregate_defaults (ex_world [ex_webapp] True [ex_api])
         (New (ex_config ''docker'')) None
         (Some \<lparr>capacity = 1, pending = [emptyConfig]\<rparr>))
       = Some (Some \<lparr>capacity = 1, pending = [emptyConfig]\<rparr>)"
proof -
  let ?w = "ex_world [ex_webapp] True [ex_api]"
  let ?a = "New (ex_config ''docker'')"
  let ?ch = "\<lparr>capacity = 1, pending = [emptyConfig :: string HTTPConfiguration]\<rparr>"
  have "\<not> (\<exists>u\<in>set (Upstreams (ex_config ''docker'')). nilEntry ?w ?a u)"
    by (simp add: nilEntry_def ex_defs run_defs)
  then obtain new where new: "Aggregate_defaults ?w ?a = Some (new, None)"
    by (simp add: Aggregate_defaults_New)
  have c: "capacity ?ch = 1" by simp
  show ?thesis
    using new c
      runAggregation_full_slot [where aggregate = Aggregate_defaults and w = ?w and agg = ?a
        and new = new and ch = ?ch and srv = None and old = emptyConfig]
    by simp
qed

text \<open>Claim C2 as stated fails: with a snapshot pending in the slot, the new snapshot (which
  has the router \<open>host1-webapp\<close>) does not replace it.\<close>

theorem runAggregation_keeps_pending_counterexample:
  "map_option snd (runAggregation Aggregate_defaults (ex_world [ex_webapp] True [ex_api])
       (New (ex_config ''docker'')) None (Some \<lparr>capacity = 1, pending = [emptyConfig]\<rparr>))
     = Some (Some \<lparr>capacity = 1, pending = [emptyConfig]\<rparr>)
   \<and> routerAt (Aggregate_defaults (ex_world [ex_webapp] True [ex_api]) (New (ex_config ''docker'')))
       ''host1-webapp'' \<noteq> None
   \<and> Routers (emptyConfig :: string HTTPConfiguration) ''host1-webapp'' = None"
  by (simp add: runAggregation_def select_send_def ex_defs run_defs)

subsection \<open>Router names\<close>

text \<open>Claim C4, as the code has it. Every router surviving selection from upstream \<open>U\<close> whose
  remote name is \<open>R\<close> has the key \<open>U-B\<close>, where \<open>B\<close> is \<open>R\<close> with everything from the first
  \<open>@\<close> onward removed. In a cycle that completes, the router published under that key is
  built from a selected router with that key: it has that router's rule and the service of
  that router's upstream. It is built from \<open>R\<close> itself (rule of \<open>R\<close>, service \<open>U-traefik\<close>)
  when no other selected router of the cycle has the same key. Both variants of the
  aggregator.\<close>

theorem published_router_key:
  assumes "u \<in> set (Upstreams cfg)" and "r \<in> set (selected w (New cfg) u)"
  shows "routerName (Upstream.Name u) (RouterInfo.Name r)
           = Upstream.Name u @ ''-'' @ takeWhile (\<lambda>c. c \<noteq> CHR ''@'') (RouterInfo.Name r)
       \<and> (Aggregate w (New cfg) \<noteq> None \<longrightarrow>
            (\<exists>u'\<in>set (Upstreams cfg). \<exists>r'\<in>set (selected w (New cfg) u').
               routerName (Upstream.Name u') (RouterInfo.Name r')
                 = routerName (Upstream.Name u) (RouterInfo.Name r)
               \<and> map_option Router.Rule (routerAt (Aggregate w (New cfg))
                     (Upstream.Name u @ ''-'' @ takeWhile (\<lambda>c. c \<noteq> CHR ''@'') (RouterInfo.Name r)))
                   = Some (RouterInfo.Rule r')
               \<and> map_option Router.Service (routerAt (Aggregate w (New cfg))
                     (Upstream.Name u @ ''-'' @ takeWhile (\<lambda>c. c \<noteq> CHR ''@'') (RouterInfo.Name r)))
                   = Some (Upstream.Name u' @ ''-traefik'')))
       \<and> (Aggregate_defaults w (New cfg) \<noteq> None \<longrightarrow>
            (\<exists>u'\<in>set (Upstreams cfg). \<exists>r'\<in>set (selected w (New cfg) u').
               routerName (Upstream.Name u') (RouterInfo.Name r')
                 = routerName (Upstream.Name u) (RouterInfo.Name r)
               \<and> map_option Router.Rule (routerAt (Aggregate_defaults w (New cfg))
                     (Upstream.Name u @ ''-'' @ takeWhile (\<lambda>c. c \<noteq> CHR ''@'') (RouterInfo.Name r)))
                   = Some (RouterInfo.Rule r')
               \<and> map_option Router.Service (routerAt (Aggregate_defaults w (New cfg))
                     (Upstream.Name u @ ''-'' @ takeWhile (\<lambda>c. c \<noteq> CHR ''@'') (RouterInfo.Name r)))
                   = Some (Upstream.Name u' @ ''-traefik'')))
       \<and> ((\<forall>u'\<in>set (Upstreams cfg). \<forall>r'\<in>set (selected w (New cfg) u').
              routerName (Upstream.Name u') (RouterInfo.Name r')
                = routerName (Upstream.Name u) (RouterInfo.Name r) \<longrightarrow> u' = u \<and> r' = r) \<longrightarrow>
            (Aggregate w (New cfg) \<noteq> None \<longrightarrow>
               map_option Router.Rule (routerAt (Aggregate w (New cfg))
                   (Upstream.Name u @ ''-'' @ takeWhile (\<lambda>c. c \<noteq> CHR ''@'') (RouterInfo.Name r)))
                 = Some (RouterInfo.Rule r)
               \<and> map_option Router.Service (routerAt (Aggregate w (New cfg))
                   (Upstream.Name u @ ''-'' @ takeWhile (\<lambda>c. c \<noteq> CHR ''@'') (RouterInfo.Name r)))
                 = Some (Upstream.Name u @ ''-traefik''))
            \<and> (Aggregate_defaults w (New cfg) \<noteq> None \<longrightarrow>
               map_option Router.Rule (routerAt (Aggregate_defaults w (New cfg))
                   (Upstream.Name u @ ''-'' @ takeWhile (\<lambda>c. c \<noteq> CHR ''@'') (RouterInfo.Name r)))
                 = Some (RouterInfo.Rule r)
               \<and> map_option Router.Service (routerAt (Aggregate_defaults w (New cfg))
                   (Upstream.Name u @ ''-'' @ takeWhile (\<lambda>c. c \<noteq> CHR ''@'') (RouterInfo.Name r)))
                 = Some (Upstream.Name u @ ''-traefik'')))"
proof -
  let ?k = "routerName (Upstream.Name u) (RouterInfo.Name r)"
  have k: "Upstream.Name u @ ''-'' @ takeWhile (\<lambda>c. c \<noteq> CHR ''@'') (RouterInfo.Name r) = ?k"
    by (simp add: routerName_def baseName_takeWhile)
  have origin: "\<exists>u'\<in>set (Upstreams cfg). \<exists>r'\<in>set (selected w (New cfg) u').
      routerName (Upstream.Name u') (RouterInfo.Name r') = ?k
      \<and> map_of (rev (published mk w (New cfg) (Upstreams cfg))) ?k = Some (mk u' r')" for mk
  proof -
    have "(?k, mk u r) \<in> set (published mk w (New cfg) (Upstreams cfg))"
      using assms by (auto simp: in_published)
    then have "map_of (rev (published mk w (New cfg) (Upstreams cfg))) ?k \<noteq> None"
      by (rule map_of_rev_defined)
    then obtain pr where pr: "map_of (rev (published mk w (New cfg) (Upstreams cfg))) ?k = Some pr"
      by auto
    from published_origin [OF pr] obtain u' r' where "u' \<in> set (Upstreams cfg)"
      "r' \<in> set (selected w (New cfg) u')"
      "?k = routerName (Upstream.Name u') (RouterInfo.Name r')" "pr = mk u' r'" by blast
    with pr show ?thesis by (intro bexI [of _ u'] bexI [of _ r']) simp_all
  qed
  have A: "\<exists>u'\<in>set (Upstreams cfg). \<exists>r'\<in>set (selected w (New cfg) u').
      routerName (Upstream.Name u') (RouterInfo.Name r') = ?k
      \<and> map_option Router.Rule (routerAt (Aggregate w (New cfg)) ?k) = Some (RouterInfo.Rule r')
      \<and> map_option Router.Service (routerAt (Aggregate w (New cfg)) ?k)
          = Some (Upstream.Name u' @ ''-traefik'')"
    if "Aggregate w (New cfg) \<noteq> None"
  proof -
    from origin [of mkRouter] obtain u' r' where "u' \<in> set (Upstreams cfg)"
      "r' \<in> set (selected w (New cfg) u')"
      "routerName (Upstream.Name u') (RouterInfo.Name r') = ?k"
      "map_of (rev (published mkRouter w (New cfg) (Upstreams cfg))) ?k = Some (mkRouter u' r')"
      by blast
    with that show ?thesis
      by (intro bexI [of _ u'] bexI [of _ r'])
         (simp_all add: routerAt_Aggregate Rule_mkRouter Service_mkRouter serviceName_def)
  qed
  have B: "\<exists>u'\<in>set (Upstreams cfg). \<exists>r'\<in>set (selected w (New cfg) u').
      routerName (Upstream.Name u') (RouterInfo.Name r') = ?k
      \<and> map_option Router.Rule (routerAt (Aggregate_defaults w (New cfg)) ?k)
          = Some (RouterInfo.Rule r')
      \<and> map_option Router.Service (routerAt (Aggregate_defaults w (New cfg)) ?k)
          = Some (Upstream.Name u' @ ''-traefik'')"
    if "Aggregate_defaults w (New cfg) \<noteq> None"
  proof -
    let ?mk = "mkRouter_defaults (Defaults (Config.Routers cfg))"
    from origin [of ?mk] obtain u' r' where "u' \<in> set (Upstreams cfg)"
      "r' \<in> set (selected w (New cfg) u')"
      "routerName (Upstream.Name u') (RouterInfo.Name r') = ?k"
      "map_of (rev (published ?mk w (New cfg) (Upstreams cfg))) ?k = Some (?mk u' r')"
      by blast
    with that show ?thesis
      by (intro bexI [of _ u'] bexI [of _ r'])
         (simp_all add: routerAt_Aggregate_defaults Rule_mkRouter_defaults
            Service_mkRouter_defaults serviceName_def)
  qed
  have C: "map_option Router.Rule (routerAt (Aggregate w (New cfg)) ?k) = Some (RouterInfo.Rule r)
      \<and> map_option Router.Service (routerAt (Aggregate w (New cfg)) ?k)
          = Some (Upstream.Name u @ ''-traefik'')"
    if "Aggregate w (New cfg) \<noteq> None"
      and only: "\<forall>u'\<in>set (Upstreams cfg). \<forall>r'\<in>set (selected w (New cfg) u').
        routerName (Upstream.Name u') (RouterInfo.Name r') = ?k \<longrightarrow> u' = u \<and> r' = r"
  proof -
    from A [OF that(1)] obtain u' r' where "u' \<in> set (Upstreams cfg)"
      "r' \<in> set (selected w (New cfg) u')"
      "routerName (Upstream.Name u') (RouterInfo.Name r') = ?k"
      and *: "map_option Router.Rule (routerAt (Aggregate w (New cfg)) ?k)
          = Some (RouterInfo.Rule r')"
        "map_option Router.Service (routerAt (Aggregate w (New cfg)) ?k)
          = Some (Upstream.Name u' @ ''-traefik'')"
      by blast
    with only have "u' = u" "r' = r" by blast+
    with * show ?thesis by simp
  qed
  have D: "map_option Router.Rule (routerAt (Aggregate_defaults w (New cfg)) ?k)
        = Some (RouterInfo.Rule r)
      \<and> map_option Router.Service (routerAt (Aggregate_defaults w (New cfg)) ?k)
          = Some (Upstream.Name u @ ''-traefik'')"
    if "Aggregate_defaults w (New cfg) \<noteq> None"
      and only: "\<forall>u'\<in>set (Upstreams cfg). \<forall>r'\<in>set (selected w (New cfg) u').
        routerName (Upstream.Name u') (RouterInfo.Name r') = ?k \<longrightarrow> u' = u \<and> r' = r"
  proof -
    from B [OF that(1)] obtain u' r' where "u' \<in> set (Upstreams cfg)"
      "r' \<in> set (selected w (New cfg) u')"
      "routerName (Upstream.Name u') (RouterInfo.Name r') = ?k"
      and *: "map_option Router.Rule (routerAt (Aggregate_defaults w (New cfg)) ?k)
          = Some (RouterInfo.Rule r')"
        "map_option Router.Service (routerAt (Aggregate_defaults w (New cfg)) ?k)
          = Some (Upstream.Name u' @ ''-traefik'')"
      by blast
    with only have "u' = u" "r' = r" by blast+
    with * show ?thesis by simp
  qed
  show ?thesis unfolding k using A B C D by blast
qed

theorem published_router_key_witness:
  "Aggregate (ex_world [ex_dashboard, ex_memos_docker] True [ex_api]) (New (ex_config ''docker''))
     \<noteq> None
   \<and> Aggregate_defaults (ex_world [ex_dashboard, ex_memos_docker] True [ex_api])
       (New (ex_config ''docker'')) \<noteq> None
   \<and> ex_host1 \<in> set (Upstreams (ex_config ''docker''))
   \<and> ex_memos_docker \<in> set (selected (ex_world [ex_dashboard, ex_memos_docker] True [ex_api])
                                (New (ex_config ''docker'')) ex_host1)
   \<and> routerName ''host1'' ''memos@docker'' = ''host1-memos''
   \<and> map_option Router.Rule
         (routerAt (Aggregate (ex_world [ex_dashboard, ex_memos_docker] True [ex_api])
            (New (ex_config ''docker''))) ''host1-memos'') = Some ''Host(a)''
   \<and> map_option Router.Service
         (routerAt (Aggregate (ex_world [ex_dashboard, ex_memos_docker] True [ex_api])
            (New (ex_config ''docker''))) ''host1-memos'') = Some ''host1-traefik''
   \<and> map_option Router.Rule
         (routerAt (Aggregate_defaults (ex_world [ex_dashboard, ex_memos_docker] True [ex_api])
            (New (ex_config ''docker''))) ''host1-memos'') = Some ''Host(a)''
   \<and> map_option Router.Service
         (routerAt (Aggregate_defaults (ex_world [ex_dashboard, ex_memos_docker] True [ex_api])
            (New (ex_config ''docker''))) ''host1-memos'') = Some ''host1-traefik''"
proof -
  let ?w = "ex_world [ex_dashboard, ex_memos_docker] True [ex_api]"
  let ?cfg = "ex_config ''docker''"
  have ret: "Aggregate ?w (New ?cfg) \<noteq> None" "Aggregate_defaults ?w (New ?cfg) \<noteq> None"
    by (simp_all add: Aggregate_None_iff) (simp_all add: nilEntry_def ex_defs run_defs)
  have ups: "Upstreams ?cfg = [ex_host1, ex_host2]" by (simp add: ex_config_def)
  have s1: "selected ?w (New ?cfg) ex_host1 = [ex_memos_docker]"
    by (simp add: selected_def ex_defs run_defs)
  have s2: "selected ?w (New ?cfg) ex_host2 = [ex_api]"
    by (simp add: selected_def ex_defs run_defs)
  have u: "ex_host1 \<in> set (Upstreams ?cfg)" by (simp add: ups)
  have r: "ex_memos_docker \<in> set (selected ?w (New ?cfg) ex_host1)" by (simp add: s1)
  have only: "\<forall>u'\<in>set (Upstreams ?cfg). \<forall>r'\<in>set (selected ?w (New ?cfg) u').
      routerName (Upstream.Name u') (RouterInfo.Name r')
        = routerName (Upstream.Name ex_host1) (RouterInfo.Name ex_memos_docker)
      \<longrightarrow> u' = ex_host1 \<and> r' = ex_memos_docker"
    unfolding ups by (simp add: s1 s2) (simp add: ex_defs run_defs)
  have n: "Upstream.Name ex_host1 = ''host1''" "RouterInfo.Name ex_memos_docker = ''memos@docker''"
    "RouterInfo.Rule ex_memos_docker = ''Host(a)''"
    by (simp_all add: ex_defs)
  show ?thesis using ret u r only published_router_key [OF u r] by (simp add: n)
qed

text \<open>Claim C4 as stated fails when keys collide: \<open>memos@docker\<close> survives selection from
  \<open>host1\<close>, but the router published under \<open>host1-memos\<close> is the one built from
  \<open>memos@file\<close>; the keys written in the cycle are \<open>host1-memos\<close> (twice) and \<open>host2-api\<close>,
  so the rule of \<open>memos@docker\<close> is published under no key.\<close>

theorem published_router_overwritten_counterexample:
  "ex_host1 \<in> set (Upstreams ex_config_plain)
   \<and> ex_memos_docker \<in> set (selected (ex_world [ex_memos_docker, ex_memos_file] True [ex_api])
                                (New ex_config_plain) ex_host1)
   \<and> routerName (Upstream.Name ex_host1) (RouterInfo.Name ex_memos_docker) = ''host1-memos''
   \<and> RouterInfo.Rule ex_memos_docker = ''Host(a)''
   \<and> map_option Router.Rule
         (routerAt (Aggregate (ex_world [ex_memos_docker, ex_memos_file] True [ex_api])
            (New ex_config_plain)) ''host1-memos'') = Some ''Host(b)''
   \<and> map_option Router.Rule
         (routerAt (Aggregate_defaults (ex_world [ex_memos_docker, ex_memos_file] True [ex_api])
            (New ex_config_plain)) ''host1-memos'') = Some ''Host(b)''
   \<and> map fst (published mkRouter (ex_world [ex_memos_docker, ex_memos_file] True [ex_api])
         (New ex_config_plain) (Upstreams ex_config_plain))
       = [''host1-memos'', ''host1-memos'', ''host2-api'']
   \<and> map_option Router.Rule
         (routerAt (Aggregate (ex_world [ex_memos_docker, ex_memos_file] True [ex_api])
            (New ex_config_plain)) ''host2-api'') = Some ''Host(api.example.com)''"
  by (simp add: selected_def published_def ex_defs ex_defs2 run_defs)

subsection \<open>Services\<close>

text \<open>Claim C8, as the code has it. For every configured upstream \<open>U\<close>, the output of a cycle
  that completes has a service named \<open>U-traefik\<close> if and only if \<open>U\<close>'s selected router list
  is non-empty (it is empty when the fetch fails). A service under that name has exactly
  one load-balancer target, the server URL of a configured upstream of that name; when
  upstream names are unique, the target is \<open>U\<close>'s own server URL. Both variants of the
  aggregator.\<close>

theorem upstream_service:
  assumes "u \<in> set (Upstreams cfg)"
  shows "(Aggregate w (New cfg) \<noteq> None \<longrightarrow>
            (serviceAt (Aggregate w (New cfg)) (Upstream.Name u @ ''-traefik'') \<noteq> None
               \<longleftrightarrow> selected w (New cfg) u \<noteq> []))
       \<and> (Aggregate_defaults w (New cfg) \<noteq> None \<longrightarrow>
            (serviceAt (Aggregate_defaults w (New cfg)) (Upstream.Name u @ ''-traefik'') \<noteq> None
               \<longleftrightarrow> selected w (New cfg) u \<noteq> []))
       \<and> (serviceAt (Aggregate w (New cfg)) (Upstream.Name u @ ''-traefik'') = Some s
            \<or> serviceAt (Aggregate_defaults w (New cfg)) (Upstream.Name u @ ''-traefik'') = Some s
            \<longrightarrow> (\<exists>v\<in>set (Upstreams cfg). Upstream.Name v = Upstream.Name u
                  \<and> s = \<lparr>LoadBalancer = Some \<lparr>Servers = [\<lparr>URL = ServerURL v\<rparr>]\<rparr>\<rparr>))
       \<and> (distinct (map Upstream.Name (Upstreams cfg)) \<and> selected w (New cfg) u \<noteq> [] \<longrightarrow>
            (Aggregate w (New cfg) \<noteq> None \<longrightarrow>
               serviceAt (Aggregate w (New cfg)) (Upstream.Name u @ ''-traefik'')
                 = Some \<lparr>LoadBalancer = Some \<lparr>Servers = [\<lparr>URL = ServerURL u\<rparr>]\<rparr>\<rparr>)
            \<and> (Aggregate_defaults w (New cfg) \<noteq> None \<longrightarrow>
               serviceAt (Aggregate_defaults w (New cfg)) (Upstream.Name u @ ''-traefik'')
                 = Some \<lparr>LoadBalancer = Some \<lparr>Servers = [\<lparr>URL = ServerURL u\<rparr>]\<rparr>\<rparr>))"
proof -
  have n: "Upstream.Name u @ ''-traefik'' = serviceName (Upstream.Name u)"
    by (simp add: serviceName_def)
  have s: "\<lparr>LoadBalancer = Some \<lparr>Servers = [\<lparr>URL = ServerURL v\<rparr>]\<rparr>\<rparr> = upstreamService v" for v
    by (simp add: upstreamService_def)
  let ?m = "map_of (rev (publishedServices w (New cfg) (Upstreams cfg)))"
  have 1: "serviceAt (Aggregate w (New cfg)) k = ?m k" if "Aggregate w (New cfg) \<noteq> None" for k
    by (simp only: serviceAt_Aggregate that if_False)
  have 2: "serviceAt (Aggregate_defaults w (New cfg)) k = ?m k"
    if "Aggregate_defaults w (New cfg) \<noteq> None" for k
    by (simp only: serviceAt_Aggregate_defaults that if_False)
  have 3: "\<exists>v\<in>set (Upstreams cfg). Upstream.Name v = Upstream.Name u \<and> s = upstreamService v"
    if "serviceAt (Aggregate w (New cfg)) (serviceName (Upstream.Name u)) = Some s
      \<or> serviceAt (Aggregate_defaults w (New cfg)) (serviceName (Upstream.Name u)) = Some s"
    using that serviceAt_SomeD [of w cfg "serviceName (Upstream.Name u)" s]
      service_origin [of w "New cfg" "Upstreams cfg" "Upstream.Name u" s]
    by blast
  show ?thesis
    unfolding n s
    using service_defined_iff [OF assms, of w "New cfg"] service_value [OF assms, of w "New cfg"]
      1 2 3
    by (intro conjI impI) simp_all
qed

theorem upstream_service_witness:
  "Aggregate (ex_world [ex_webapp] True [ex_dashboard]) (New (ex_config ''docker'')) \<noteq> None
   \<and> Aggregate_defaults (ex_world [ex_webapp] True [ex_dashboard]) (New (ex_config ''docker''))
       \<noteq> None
   \<and> ex_host1 \<in> set (Upstreams (ex_config ''docker''))
   \<and> ex_host2 \<in> set (Upstreams (ex_config ''docker''))
   \<and> distinct (map Upstream.Name (Upstreams (ex_config ''docker'')))
   \<and> selected (ex_world [ex_webapp] True [ex_dashboard]) (New (ex_config ''docker'')) ex_host1
       = [ex_webapp]
   \<and> serviceAt (Aggregate (ex_world [ex_webapp] True [ex_dashboard]) (New (ex_config ''docker'')))
         ''host1-traefik''
       = Some \<lparr>LoadBalancer = Some \<lparr>Servers = [\<lparr>URL = ''http://10.0.0.1:80''\<rparr>]\<rparr>\<rparr>
   \<and> serviceAt (Aggregate_defaults (ex_world [ex_webapp] True [ex_dashboard])
         (New (ex_config ''docker''))) ''host1-traefik''
       = Some \<lparr>LoadBalancer = Some \<lparr>Servers = [\<lparr>URL = ''http://10.0.0.1:80''\<rparr>]\<rparr>\<rparr>
   \<and> selected (ex_world [ex_webapp] True [ex_dashboard]) (New (ex_config ''docker'')) ex_host2 = []
   \<and> serviceAt (Aggregate (ex_world [ex_webapp] True [ex_dashboard]) (New (ex_config ''docker'')))
         ''host2-traefik'' = None
   \<and> serviceAt (Aggregate_defaults (ex_world [ex_webapp] True [ex_dashboard])
         (New (ex_config ''docker''))) ''host2-traefik'' = None"
proof -
  let ?w = "ex_world [ex_webapp] True [ex_dashboard]"
  let ?cfg = "ex_config ''docker''"
  have ret: "Aggregate ?w (New ?cfg) \<noteq> None" "Aggregate_defaults ?w (New ?cfg) \<noteq> None"
    by (simp_all add: Aggregate_None_iff) (simp_all add: nilEntry_def ex_defs run_defs)
  have u1: "ex_host1 \<in> set (Upstreams ?cfg)" and u2: "ex_host2 \<in> set (Upstreams ?cfg)"
    by (simp_all add: ex_config_def)
  have d: "distinct (map Upstream.Name (Upstreams ?cfg))" by (simp add: ex_defs)
  have s1: "selected ?w (New ?cfg) ex_host1 = [ex_webapp]"
    by (simp add: selected_def ex_defs run_defs)
  have s2: "selected ?w (New ?cfg) ex_host2 = []"
    by (simp add: selected_def ex_defs run_defs)
  have n: "Upstream.Name ex_host1 = ''host1''" "Upstream.Name ex_host2 = ''host2''"
    "ServerURL ex_host1 = ''http://10.0.0.1:80''"
    by (simp_all add: ex_defs)
  show ?thesis
    using ret u1 u2 d s1 s2 upstream_service [OF u1, of ?w] upstream_service [OF u2, of ?w]
    by (simp add: n)
qed

text \<open>Claim C8 as stated fails when two upstreams have the same name, which \<^verbatim>\<open>Validate\<close>
  does not exclude: both are fetched through the client of the later one, the selected list
  of the first is non-empty, and the one service \<open>dup-traefik\<close> points at the server URL of
  the later upstream, not at that of the first.\<close>

theorem upstream_service_duplicate_name_counterexample:
  "ex_dup1 \<in> set (Upstreams (ex_config_plain\<lparr>Upstreams := [ex_dup1, ex_dup2]\<rparr>))
   \<and> selected (ex_world [ex_webapp] True [ex_api])
         (New (ex_config_plain\<lparr>Upstreams := [ex_dup1, ex_dup2]\<rparr>)) ex_dup1 = [ex_api]
   \<and> Upstream.Name ex_dup1 @ ''-traefik'' = ''dup-traefik''
   \<and> ServerURL ex_dup1 = ''http://10.0.0.1:80''
   \<and> serviceAt (Aggregate (ex_world [ex_webapp] True [ex_api])
         (New (ex_config_plain\<lparr>Upstreams := [ex_dup1, ex_dup2]\<rparr>))) ''dup-traefik''
       = Some \<lparr>LoadBalancer = Some \<lparr>Servers = [\<lparr>URL = ''http://10.0.0.2:80''\<rparr>]\<rparr>\<rparr>
   \<and> serviceAt (Aggregate_defaults (ex_world [ex_webapp] True [ex_api])
         (New (ex_config_plain\<lparr>Upstreams := [ex_dup1, ex_dup2]\<rparr>))) ''dup-traefik''
       = Some \<lparr>LoadBalancer = Some \<lparr>Servers = [\<lparr>URL = ''http://10.0.0.2:80''\<rparr>]\<rparr>\<rparr>"
  by (simp add: selected_def ex_dup1_def ex_dup2_def ex_defs ex_defs2 run_defs)

subsection \<open>Merge policy: entry points and middlewares\<close>

text \<open>Claim C1, as the code has it. In the aggregator with merge defaults, every router
  surviving selection is published when the cycle completes, and every published router has
  the entry points of
  the defaults when these are non-empty and no entry points otherwise, never those of the
  remote router; likewise for middlewares. In the aggregator of
  \<^verbatim>\<open>internal/aggregator/aggregator.go\<close>, which does not read the defaults, every published
  router has the entry points and middlewares of the selected remote router it was built
  from.\<close>

theorem entryPoints_middlewares_policy:
  "(Aggregate_defaults w (New cfg) \<noteq> None
      \<and> u \<in> set (Upstreams cfg) \<and> r \<in> set (selected w (New cfg) u) \<longrightarrow>
      routerAt (Aggregate_defaults w (New cfg))
        (routerName (Upstream.Name u) (RouterInfo.Name r)) \<noteq> None)
   \<and> (routerAt (Aggregate_defaults w (New cfg)) k = Some pr \<longrightarrow>
        Router.EntryPoints pr
          = (if RouterDefaults.EntryPoints (Defaults (Config.Routers cfg)) \<noteq> []
             then RouterDefaults.EntryPoints (Defaults (Config.Routers cfg)) else [])
        \<and> Router.Middlewares pr
          = (if RouterDefaults.Middlewares (Defaults (Config.Routers cfg)) \<noteq> []
             then RouterDefaults.Middlewares (Defaults (Config.Routers cfg)) else []))
   \<and> (routerAt (Aggregate w (New cfg)) k = Some pr \<longrightarrow>
        (\<exists>u\<in>set (Upstreams cfg). \<exists>r\<in>set (selected w (New cfg) u).
           k = routerName (Upstream.Name u) (RouterInfo.Name r)
           \<and> Router.EntryPoints pr = RouterInfo.EntryPoints r
           \<and> Router.Middlewares pr = RouterInfo.Middlewares r))"
proof -
  have A: "routerAt (Aggregate_defaults w (New cfg))
        (routerName (Upstream.Name u) (RouterInfo.Name r)) \<noteq> None"
    if "u \<in> set (Upstreams cfg)" "r \<in> set (selected w (New cfg) u)"
      "Aggregate_defaults w (New cfg) \<noteq> None"
  proof -
    let ?mk = "mkRouter_defaults (Defaults (Config.Routers cfg))"
    have "(routerName (Upstream.Name u) (RouterInfo.Name r), ?mk u r)
        \<in> set (published ?mk w (New cfg) (Upstreams cfg))"
      using that by (auto simp: in_published)
    then have "map_of (rev (published ?mk w (New cfg) (Upstreams cfg)))
        (routerName (Upstream.Name u) (RouterInfo.Name r)) \<noteq> None"
      by (rule map_of_rev_defined)
    with that(3) show ?thesis by (simp add: routerAt_Aggregate_defaults)
  qed
  have B: "Router.EntryPoints pr = RouterDefaults.EntryPoints (Defaults (Config.Routers cfg))
      \<and> Router.Middlewares pr = RouterDefaults.Middlewares (Defaults (Config.Routers cfg))"
    if "routerAt (Aggregate_defaults w (New cfg)) k = Some pr"
    using published_origin [OF routerAt_SomeD(2) [OF that]]
    by (auto simp: EntryPoints_mkRouter_defaults)
  have C: "\<exists>u\<in>set (Upstreams cfg). \<exists>r\<in>set (selected w (New cfg) u).
           k = routerName (Upstream.Name u) (RouterInfo.Name r)
           \<and> Router.EntryPoints pr = RouterInfo.EntryPoints r
           \<and> Router.Middlewares pr = RouterInfo.Middlewares r"
    if "routerAt (Aggregate w (New cfg)) k = Some pr"
  proof -
    from published_origin [OF routerAt_SomeD(1) [OF that]]
    obtain u r where "u \<in> set (Upstreams cfg)" "r \<in> set (selected w (New cfg) u)"
      "k = routerName (Upstream.Name u) (RouterInfo.Name r)" "pr = mkRouter u r" by blast
    then show ?thesis
      by (intro bexI [of _ u] bexI [of _ r]) (simp_all add: EntryPoints_mkRouter)
  qed
  show ?thesis using A B C by simp
qed

theorem entryPoints_middlewares_policy_witness:
  "Aggregate_defaults (ex_world [ex_webapp] True [ex_api]) (New (ex_config ''docker'')) \<noteq> None
   \<and> ex_host1 \<in> set (Upstreams (ex_config ''docker''))
   \<and> ex_webapp \<in> set (selected (ex_world [ex_webapp] True [ex_api]) (New (ex_config ''docker''))
         ex_host1)
   \<and> routerName (Upstream.Name ex_host1) (RouterInfo.Name ex_webapp) = ''host1-webapp''
   \<and> RouterDefaults.EntryPoints (Defaults (Config.Routers (ex_config ''docker''))) = [''websecure'']
   \<and> RouterDefaults.Middlewares (Defaults (Config.Routers (ex_config ''docker''))) = []
   \<and> RouterInfo.EntryPoints ex_webapp = [''web'']
   \<and> RouterInfo.Middlewares ex_webapp = [''auth'']
   \<and> routerAt (Aggregate_defaults (ex_world [ex_webapp] True [ex_api]) (New (ex_config ''docker'')))
         ''host1-webapp''
       = Some \<lparr>Router.Rule = ''Host(app.example.com)'', Router.Service = ''host1-traefik'',
                Router.EntryPoints = [''websecure''], Router.Middlewares = [],
                Router.TLS = Some ''letsencrypt''\<rparr>
   \<and> routerAt (Aggregate (ex_world [ex_webapp] True [ex_api]) (New (ex_config ''docker'')))
         ''host1-webapp''
       = Some \<lparr>Router.Rule = ''Host(app.example.com)'', Router.Service = ''host1-traefik'',
                Router.EntryPoints = [''web''], Router.Middlewares = [''auth''],
                Router.TLS = None\<rparr>"
proof -
  let ?w = "ex_world [ex_webapp] True [ex_api]"
  let ?cfg = "ex_config ''docker''"
  let ?p2 = "\<lparr>Router.Rule = ''Host(app.example.com)'', Router.Service = ''host1-traefik'',
                Router.EntryPoints = [''websecure''], Router.Middlewares = [],
                Router.TLS = Some ''letsencrypt''\<rparr>"
  let ?p1 = "\<lparr>Router.Rule = ''Host(app.example.com)'', Router.Service = ''host1-traefik'',
                Router.EntryPoints = [''web''], Router.Middlewares = [''auth''],
                Router.TLS = (None :: string option)\<rparr>"
  have ret: "Aggregate_defaults ?w (New ?cfg) \<noteq> None"
    by (simp add: Aggregate_None_iff) (simp add: nilEntry_def ex_defs run_defs)
  have u: "ex_host1 \<in> set (Upstreams ?cfg)" by (simp add: ex_config_def)
  have r: "ex_webapp \<in> set (selected ?w (New ?cfg) ex_host1)"
    by (simp add: selected_def ex_defs run_defs)
  have 2: "routerAt (Aggregate_defaults ?w (New ?cfg)) ''host1-webapp'' = Some ?p2"
    by (simp add: ex_defs run_defs)
  have 1: "routerAt (Aggregate ?w (New ?cfg)) ''host1-webapp'' = Some ?p1"
    by (simp add: ex_defs run_defs)
  have n: "routerName (Upstream.Name ex_host1) (RouterInfo.Name ex_webapp) = ''host1-webapp''"
    "RouterDefaults.EntryPoints (Defaults (Config.Routers ?cfg)) = [''websecure'']"
    "RouterDefaults.Middlewares (Defaults (Config.Routers ?cfg)) = []"
    "RouterInfo.EntryPoints ex_webapp = [''web'']"
    "RouterInfo.Middlewares ex_webapp = [''auth'']"
    by (simp_all add: ex_defs run_defs)
  show ?thesis
    using ret u r 1 2 n
      entryPoints_middlewares_policy [where w = ?w and cfg = ?cfg and u = ex_host1
        and r = ex_webapp and k = "''host1-webapp''" and pr = ?p2]
      entryPoints_middlewares_policy [where w = ?w and cfg = ?cfg and u = ex_host1
        and r = ex_webapp and k = "''host1-webapp''" and pr = ?p1]
    by simp
qed

text \<open>Claim C1 as stated fails on the aggregator of \<^verbatim>\<open>internal/aggregator/aggregator.go\<close>:
  with default entry points \<open>websecure\<close> and no default middlewares, the published router
  inherits \<open>web\<close> and \<open>auth\<close> from the remote router.\<close>

theorem entryPoints_inherited_counterexample:
  "RouterDefaults.EntryPoints (Defaults (Config.Routers (ex_config ''docker''))) = [''websecure'']
   \<and> map_option Router.EntryPoints
         (routerAt (Aggregate (ex_world [ex_webapp] True [ex_api]) (New (ex_config ''docker'')))
            ''host1-webapp'') = Some [''web'']
   \<and> RouterDefaults.Middlewares (Defaults (Config.Routers (ex_config ''docker''))) = []
   \<and> map_option Router.Middlewares
         (routerAt (Aggregate (ex_world [ex_webapp] True [ex_api]) (New (ex_config ''docker'')))
            ''host1-webapp'') = Some [''auth'']"
  by (simp add: ex_defs run_defs)

subsection \<open>Merge policy: TLS\<close>

text \<open>Claim C7, as the code has it. In the aggregator with merge defaults, every router
  surviving selection is published when the cycle completes, and every published router was
  built from a selected
  remote router with that key: its TLS is that of the defaults when present, otherwise that
  of the remote router when present, otherwise none. In the aggregator of
  \<^verbatim>\<open>internal/aggregator/aggregator.go\<close> the TLS of a published router is that of the
  remote router, whatever the defaults.\<close>

theorem tls_policy:
  "(Aggregate_defaults w (New cfg) \<noteq> None
      \<and> u \<in> set (Upstreams cfg) \<and> r \<in> set (selected w (New cfg) u) \<longrightarrow>
      routerAt (Aggregate_defaults w (New cfg))
        (routerName (Upstream.Name u) (RouterInfo.Name r)) \<noteq> None)
   \<and> (routerAt (Aggregate_defaults w (New cfg)) k = Some pr \<longrightarrow>
        (\<exists>u\<in>set (Upstreams cfg). \<exists>r\<in>set (selected w (New cfg) u).
           k = routerName (Upstream.Name u) (RouterInfo.Name r)
           \<and> Router.TLS pr
               = (case RouterDefaults.TLS (Defaults (Config.Routers cfg)) of
                    Some t \<Rightarrow> Some t
                  | None \<Rightarrow> (case RouterInfo.TLS r of Some t \<Rightarrow> Some t | None \<Rightarrow> None))))
   \<and> (routerAt (Aggregate w (New cfg)) k = Some pr \<longrightarrow>
        (\<exists>u\<in>set (Upstreams cfg). \<exists>r\<in>set (selected w (New cfg) u).
           k = routerName (Upstream.Name u) (RouterInfo.Name r)
           \<and> Router.TLS pr = RouterInfo.TLS r))"
proof -
  have A: "routerAt (Aggregate_defaults w (New cfg))
        (routerName (Upstream.Name u) (RouterInfo.Name r)) \<noteq> None"
    if "u \<in> set (Upstreams cfg)" "r \<in> set (selected w (New cfg) u)"
      "Aggregate_defaults w (New cfg) \<noteq> None"
  proof -
    let ?mk = "mkRouter_defaults (Defaults (Config.Routers cfg))"
    have "(routerName (Upstream.Name u) (RouterInfo.Name r), ?mk u r)
        \<in> set (published ?mk w (New cfg) (Upstreams cfg))"
      using that by (auto simp: in_published)
    then have "map_of (rev (published ?mk w (New cfg) (Upstreams cfg)))
        (routerName (Upstream.Name u) (RouterInfo.Name r)) \<noteq> None"
      by (rule map_of_rev_defined)
    with that(3) show ?thesis by (simp add: routerAt_Aggregate_defaults)
  qed
  have B: "\<exists>u\<in>set (Upstreams cfg). \<exists>r\<in>set (selected w (New cfg) u).
           k = routerName (Upstream.Name u) (RouterInfo.Name r)
           \<and> Router.TLS pr
               = (case RouterDefaults.TLS (Defaults (Config.Routers cfg)) of
                    Some t \<Rightarrow> Some t
                  | None \<Rightarrow> (case RouterInfo.TLS r of Some t \<Rightarrow> Some t | None \<Rightarrow> None))"
    if "routerAt (Aggregate_defaults w (New cfg)) k = Some pr"
  proof -
    from published_origin [OF routerAt_SomeD(2) [OF that]]
    obtain u r where "u \<in> set (Upstreams cfg)" "r \<in> set (selected w (New cfg) u)"
      "k = routerName (Upstream.Name u) (RouterInfo.Name r)"
      "pr = mkRouter_defaults (Defaults (Config.Routers cfg)) u r" by blast
    then show ?thesis
      by (intro bexI [of _ u] bexI [of _ r])
         (simp_all add: TLS_mkRouter_defaults split: option.splits)
  qed
  have C: "\<exists>u\<in>set (Upstreams cfg). \<exists>r\<in>set (selected w (New cfg) u).
           k = routerName (Upstream.Name u) (RouterInfo.Name r)
           \<and> Router.TLS pr = RouterInfo.TLS r"
    if "routerAt (Aggregate w (New cfg)) k = Some pr"
  proof -
    from published_origin [OF routerAt_SomeD(1) [OF that]]
    obtain u r where "u \<in> set (Upstreams cfg)" "r \<in> set (selected w (New cfg) u)"
      "k = routerName (Upstream.Name u) (RouterInfo.Name r)" "pr = mkRouter u r" by blast
    then show ?thesis
      by (intro bexI [of _ u] bexI [of _ r]) (simp_all add: TLS_mkRouter)
  qed
  show ?thesis using A B C by simp
qed


theorem tls_policy_witness:
  "Aggregate_defaults (ex_world [ex_webapp] True [ex_api]) (New (ex_config ''docker'')) \<noteq> None
   \<and> ex_host2 \<in> set (Upstreams (ex_config ''docker''))
   \<and> ex_api \<in> set (selected (ex_world [ex_webapp] True [ex_api]) (New (ex_config ''docker''))
         ex_host2)
   \<and> RouterInfo.TLS ex_api = Some ''own'' \<and> RouterInfo.TLS ex_webapp = None
   \<and> RouterDefaults.TLS (Defaults (Config.Routers (ex_config ''docker''))) = Some ''letsencrypt''
   \<and> map_option Router.TLS
         (routerAt (Aggregate_defaults (ex_world [ex_webapp] True [ex_api])
            (New (ex_config ''docker''))) ''host2-api'') = Some (Some ''letsencrypt'')
   \<and> RouterDefaults.TLS (Defaults (Config.Routers ex_config_plain)) = None
   \<and> map_option Router.TLS
         (routerAt (Aggregate_defaults (ex_world [ex_webapp] True [ex_api]) (New ex_config_plain))
            ''host2-api'') = Some (Some ''own'')
   \<and> map_option Router.TLS
         (routerAt (Aggregate_defaults (ex_world [ex_webapp] True [ex_api]) (New ex_config_plain))
            ''host1-webapp'') = Some None
   \<and> map_option Router.TLS
         (routerAt (Aggregate (ex_world [ex_webapp] True [ex_api]) (New ex_config_plain))
            ''host2-api'') = Some (Some ''own'')"
proof -
  let ?w = "ex_world [ex_webapp] True [ex_api]"
  let ?cfg = "ex_config ''docker''"
  let ?p = "\<lparr>Router.Rule = ''Host(api.example.com)'', Router.Service = ''host2-traefik'',
                Router.EntryPoints = [''websecure''], Router.Middlewares = [],
                Router.TLS = Some ''letsencrypt''\<rparr>"
  have ret: "Aggregate_defaults ?w (New ?cfg) \<noteq> None"
    by (simp add: Aggregate_None_iff) (simp add: nilEntry_def ex_defs run_defs)
  have u: "ex_host2 \<in> set (Upstreams ?cfg)" by (simp add: ex_config_def)
  have r: "ex_api \<in> set (selected ?w (New ?cfg) ex_host2)"
    by (simp add: selected_def ex_defs run_defs)
  have p: "routerAt (Aggregate_defaults ?w (New ?cfg)) ''host2-api'' = Some ?p"
    by (simp add: ex_defs run_defs)
  have rest: "RouterInfo.TLS ex_api = Some ''own''" "RouterInfo.TLS ex_webapp = None"
    "RouterDefaults.TLS (Defaults (Config.Routers ?cfg)) = Some ''letsencrypt''"
    "RouterDefaults.TLS (Defaults (Config.Routers ex_config_plain)) = None"
    "map_option Router.TLS (routerAt (Aggregate_defaults ?w (New ex_config_plain)) ''host2-api'')
       = Some (Some ''own'')"
    "map_option Router.TLS (routerAt (Aggregate_defaults ?w (New ex_config_plain)) ''host1-webapp'')
       = Some None"
    "map_option Router.TLS (routerAt (Aggregate ?w (New ex_config_plain)) ''host2-api'')
       = Some (Some ''own'')"
    by (simp_all add: ex_defs ex_defs2 run_defs)
  show ?thesis
    using ret u r p rest tls_policy [where w = ?w and cfg = ?cfg and u = ex_host2 and r = ex_api
        and k = "''host2-api''" and pr = ?p]
    by simp
qed

text \<open>Claim C7 as stated fails on the aggregator of \<^verbatim>\<open>internal/aggregator/aggregator.go\<close>:
  with the default resolver \<open>letsencrypt\<close>, a router without TLS is published without TLS,
  and a router with its own TLS keeps it.\<close>

theorem tls_default_ignored_counterexample:
  "RouterDefaults.TLS (Defaults (Config.Routers (ex_config ''docker''))) = Some ''letsencrypt''
   \<and> map_option Router.TLS
         (routerAt (Aggregate (ex_world [ex_webapp] True [ex_api]) (New (ex_config ''docker'')))
            ''host1-webapp'') = Some None
   \<and> map_option Router.TLS
         (routerAt (Aggregate (ex_world [ex_webapp] True [ex_api]) (New (ex_config ''docker'')))
            ''host2-api'') = Some (Some ''own'')"
  by (simp add: ex_defs run_defs)

subsection \<open>Uniqueness of router keys\<close>

text \<open>Claim C3, as the code has it. When upstream names are unique, no upstream name
  followed by a hyphen is a prefix of an upstream name, and within each upstream the selected
  routers have pairwise distinct names up to their first \<open>@\<close>, the router keys written in one
  cycle are pairwise distinct, and every selected router is found in the output of a cycle
  that completes under its own key as its own declaration. Both variants of the
  aggregator.\<close>

theorem published_keys_unique:
  assumes "distinct (map Upstream.Name (Upstreams cfg))"
    and "\<forall>u1\<in>set (Upstreams cfg). \<forall>u2\<in>set (Upstreams cfg).
           \<not> prefix (Upstream.Name u1 @ ''-'') (Upstream.Name u2)"
    and "\<forall>u\<in>set (Upstreams cfg).
           distinct (map (\<lambda>r. baseName (RouterInfo.Name r)) (selected w (New cfg) u))"
  shows "distinct (map fst (published mkRouter w (New cfg) (Upstreams cfg)))
       \<and> distinct (map fst (published (mkRouter_defaults (Defaults (Config.Routers cfg))) w (New cfg)
                                (Upstreams cfg)))
       \<and> (Aggregate w (New cfg) \<noteq> None
            \<and> u \<in> set (Upstreams cfg) \<and> r \<in> set (selected w (New cfg) u) \<longrightarrow>
            routerAt (Aggregate w (New cfg)) (routerName (Upstream.Name u) (RouterInfo.Name r))
              = Some (newRouter (serviceName (Upstream.Name u)) r))
       \<and> (Aggregate_defaults w (New cfg) \<noteq> None
            \<and> u \<in> set (Upstreams cfg) \<and> r \<in> set (selected w (New cfg) u) \<longrightarrow>
            routerAt (Aggregate_defaults w (New cfg))
                (routerName (Upstream.Name u) (RouterInfo.Name r))
              = Some (newRouter_defaults (Defaults (Config.Routers cfg))
                        (serviceName (Upstream.Name u)) r))"
proof -
  have d: "distinct (map fst (published mk w (New cfg) (Upstreams cfg)))" for mk
    using assms by (rule published_keys_distinct)
  have "map_of (rev (published mk w (New cfg) (Upstreams cfg)))
        (routerName (Upstream.Name u) (RouterInfo.Name r)) = Some (mk u r)"
    if "u \<in> set (Upstreams cfg)" "r \<in> set (selected w (New cfg) u)" for mk
  proof -
    have "(routerName (Upstream.Name u) (RouterInfo.Name r), mk u r)
        \<in> set (published mk w (New cfg) (Upstreams cfg))"
      using that by (auto simp: in_published)
    with d show ?thesis by (rule map_of_rev_distinct)
  qed
  then show ?thesis
    using d by (simp add: routerAt_Aggregate routerAt_Aggregate_defaults mkRouter_def
          mkRouter_defaults_def)
qed


theorem published_keys_unique_witness:
  "Aggregate (ex_world [ex_webapp, ex_memos_docker] True [ex_api]) (New (ex_config ''docker''))
     \<noteq> None
   \<and> Aggregate_defaults (ex_world [ex_webapp, ex_memos_docker] True [ex_api])
       (New (ex_config ''docker'')) \<noteq> None
   \<and> distinct (map fst (published mkRouter (ex_world [ex_webapp, ex_memos_docker] True [ex_api])
       (New (ex_config ''docker'')) (Upstreams (ex_config ''docker''))))
   \<and> map fst (published mkRouter (ex_world [ex_webapp, ex_memos_docker] True [ex_api])
       (New (ex_config ''docker'')) (Upstreams (ex_config ''docker'')))
       = [''host1-webapp'', ''host1-memos'', ''host2-api'']
   \<and> routerAt (Aggregate (ex_world [ex_webapp, ex_memos_docker] True [ex_api])
         (New (ex_config ''docker''))) ''host1-memos''
       = Some (newRouter ''host1-traefik'' ex_memos_docker)
   \<and> routerAt (Aggregate_defaults (ex_world [ex_webapp, ex_memos_docker] True [ex_api])
         (New (ex_config ''docker''))) ''host1-memos''
       = Some (newRouter_defaults (Defaults (Config.Routers (ex_config ''docker'')))
                 ''host1-traefik'' ex_memos_docker)"
proof -
  let ?w = "ex_world [ex_webapp, ex_memos_docker] True [ex_api]"
  let ?cfg = "ex_config ''docker''"
  have ret: "Aggregate ?w (New ?cfg) \<noteq> None" "Aggregate_defaults ?w (New ?cfg) \<noteq> None"
    by (simp_all add: Aggregate_None_iff) (simp_all add: nilEntry_def ex_defs run_defs)
  have h1: "distinct (map Upstream.Name (Upstreams ?cfg))" by (simp add: ex_defs)
  have h2: "\<forall>u1\<in>set (Upstreams ?cfg). \<forall>u2\<in>set (Upstreams ?cfg).
      \<not> prefix (Upstream.Name u1 @ ''-'') (Upstream.Name u2)"
    by (simp add: ex_defs)
  have s1: "selected ?w (New ?cfg) ex_host1 = [ex_webapp, ex_memos_docker]"
    by (simp add: selected_def ex_defs run_defs)
  have s2: "selected ?w (New ?cfg) ex_host2 = [ex_api]"
    by (simp add: selected_def ex_defs run_defs)
  have ups: "Upstreams ?cfg = [ex_host1, ex_host2]" by (simp add: ex_config_def)
  have h3: "\<forall>u\<in>set (Upstreams ?cfg).
      distinct (map (\<lambda>r. baseName (RouterInfo.Name r)) (selected ?w (New ?cfg) u))"
    unfolding ups by (simp add: s1 s2) (simp add: ex_defs baseName_def)
  have u: "ex_host1 \<in> set (Upstreams ?cfg)" by (simp add: ups)
  have r: "ex_memos_docker \<in> set (selected ?w (New ?cfg) ex_host1)" by (simp add: s1)
  have n: "routerName (Upstream.Name ex_host1) (RouterInfo.Name ex_memos_docker) = ''host1-memos''"
    "serviceName (Upstream.Name ex_host1) = ''host1-traefik''"
    by (simp_all add: ex_defs run_defs)
  have k: "map fst (published mkRouter ?w (New ?cfg) (Upstreams ?cfg))
      = [''host1-webapp'', ''host1-memos'', ''host2-api'']"
    unfolding ups by (simp add: published_def s1 s2) (simp add: ex_defs run_defs)
  show ?thesis
    using ret u r k published_keys_unique [OF h1 h2 h3, where u = ex_host1 and r = ex_memos_docker]
    by (simp add: n)
qed

text \<open>Claim C3 as stated fails. Within one upstream, the distinct remote names
  \<open>memos@docker\<close> and \<open>memos@file\<close> both give the key \<open>host1-memos\<close>; across the upstreams
  \<open>a\<close> and \<open>a-b\<close>, the routers \<open>b-c@docker\<close> and \<open>c@docker\<close> both give \<open>a-b-c\<close>. In each
  case the later router overwrites the earlier one.\<close>

theorem router_key_collision_counterexample:
  "distinct (map Upstream.Name (Upstreams ex_config_plain))
   \<and> distinct (map RouterInfo.Name [ex_memos_docker, ex_memos_file])
   \<and> distinct (map RouterInfo.Name [ex_api])
   \<and> selected (ex_world [ex_memos_docker, ex_memos_file] True [ex_api]) (New ex_config_plain)
         ex_host1 = [ex_memos_docker, ex_memos_file]
   \<and> routerName (Upstream.Name ex_host1) (RouterInfo.Name ex_memos_docker) = ''host1-memos''
   \<and> routerName (Upstream.Name ex_host1) (RouterInfo.Name ex_memos_file) = ''host1-memos''
   \<and> map_option Router.Rule
         (routerAt (Aggregate_defaults (ex_world [ex_memos_docker, ex_memos_file] True [ex_api])
            (New ex_config_plain)) ''host1-memos'') = Some ''Host(b)''
   \<and> distinct (map Upstream.Name [ex_a, ex_a_b])
   \<and> distinct (map RouterInfo.Name [ex_b_c]) \<and> distinct (map RouterInfo.Name [ex_c])
   \<and> selected (ex_world [ex_b_c] True [ex_c]) (New (ex_config_plain\<lparr>Upstreams := [ex_a, ex_a_b]\<rparr>))
         ex_a = [ex_b_c]
   \<and> selected (ex_world [ex_b_c] True [ex_c]) (New (ex_config_plain\<lparr>Upstreams := [ex_a, ex_a_b]\<rparr>))
         ex_a_b = [ex_c]
   \<and> routerName (Upstream.Name ex_a) (RouterInfo.Name ex_b_c) = ''a-b-c''
   \<and> routerName (Upstream.Name ex_a_b) (RouterInfo.Name ex_c) = ''a-b-c''
   \<and> map_option Router.Rule
         (routerAt (Aggregate_defaults (ex_world [ex_b_c] True [ex_c])
            (New (ex_config_plain\<lparr>Upstreams := [ex_a, ex_a_b]\<rparr>))) ''a-b-c'') = Some ''Host(y)''"
  by (simp add: selected_def ex_defs ex_defs2 run_defs)

end
